theory Spec2Isabelle
  imports Main "HOL-Library.Word"
begin

unbundle bit_operations_syntax

section \<open>The receiver of the fsutil file-transfer protocol (receive.go)\<close>

text \<open>
  The development embeds the packet-dispatch goroutine of \<^verbatim>\<open>receiver.run\<close>, the
  content-pull callback \<^verbatim>\<open>receiver.asyncDataFunc\<close>, the walker feed
  \<^verbatim>\<open>dynamicWalker.update\<close>, the wrapped sink and the generic stack of
  \<^verbatim>\<open>vendor/github.com/tonistiigi/fsutil/receive.go\<close>.

  Go strings and byte slices are sequences of bytes; an Isabelle \<open>char\<close> is a byte, so both
  are modelled as \<open>string\<close>. The counter \<^verbatim>\<open>i\<close> and the packet field \<^verbatim>\<open>ID\<close> are
  \<^verbatim>\<open>uint32\<close>, modelled as \<open>32 word\<close>. The optional progress callback only accumulates
  packet sizes for reporting and is left out.
\<close>

subsection \<open>Errors\<close>

type_synonym bytes = string

text \<open>
  Go error values. \<open>Errorf\<close> carries the formatted text of \<^verbatim>\<open>errors.Errorf\<close>;
  \<open>PathError\<close> is \<^verbatim>\<open>&os.PathError{Op, Path, Err}\<close>; \<open>EOF\<close> is the sentinel \<^verbatim>\<open>io.EOF\<close>;
  \<open>WalkerClosed e\<close> is \<^verbatim>\<open>errors.Wrap(e, "walker is closed")\<close>; \<open>Panic\<close> is a run-time panic
  of the Go runtime; \<open>External\<close> is an error produced by a collaborator (the stream, a
  validator, a sink, the codec, the context).
\<close>

datatype errno = EINVAL

datatype error =
    Errorf string
  | PathError string string errno
  | EOF
  | WalkerClosed error
  | Panic string
  | External string

fun errno_text :: "errno \<Rightarrow> string" where
  "errno_text EINVAL = ''invalid argument''"

text \<open>The text returned by the \<^verbatim>\<open>Error()\<close> method.\<close>

fun error_text :: "error \<Rightarrow> string" where
  "error_text (Errorf s) = s"
| "error_text (PathError opn p e) = opn @ '' '' @ p @ '': '' @ errno_text e"
| "error_text EOF = ''EOF''"
| "error_text (WalkerClosed e) = ''walker is closed: '' @ error_text e"
| "error_text (Panic s) = ''panic: '' @ s"
| "error_text (External s) = s"

subsection \<open>Formatting\<close>

text \<open>The verb \<^verbatim>\<open>%d\<close> of an unsigned integer: its decimal digits.\<close>

definition digit_char :: "nat \<Rightarrow> char" where
  "digit_char d = ''0123456789'' ! d"

fun show_nat_fuel :: "nat \<Rightarrow> nat \<Rightarrow> string" where
  "show_nat_fuel 0 n = []"
| "show_nat_fuel (Suc k) n =
     (if n < 10 then [digit_char n] else show_nat_fuel k (n div 10) @ [digit_char (n mod 10)])"

definition show_u32 :: "32 word \<Rightarrow> string" where
  "show_u32 w = show_nat_fuel 10 (unat w)"

text \<open>\<^verbatim>\<open>binary.LittleEndian.PutUint32(dt[0:4], uint32(n))\<close>: the conversion to \<^verbatim>\<open>uint32\<close>
  truncates, the four bytes are written least significant first.\<close>

definition putUint32 :: "nat \<Rightarrow> bytes" where
  "putUint32 n =
     (let v = n mod 2 ^ 32 in
      [char_of v, char_of (v div 2 ^ 8), char_of (v div 2 ^ 16), char_of (v div 2 ^ 24)])"

subsection \<open>Wire messages\<close>

text \<open>Modelled from the spec: the type declarations \<^verbatim>\<open>types.Stat\<close>, \<^verbatim>\<open>types.Packet\<close> and
  \<^verbatim>\<open>types.PacketType\<close> are generated code outside the sources at hand. A metadata record
  has a path, mode, ownership, size, modification time, link target, device numbers and
  extended attributes; a wire message has a type, an optional record, an identifier and a
  byte chunk.\<close>

record stat =
  Path :: string
  Mode :: "32 word"
  Uid :: "32 word"
  Gid :: "32 word"
  Size :: "64 word"
  ModTime :: "64 word"
  Linkname :: string
  Devmajor :: "64 word"
  Devminor :: "64 word"
  Xattrs :: "(string \<times> bytes) list"

datatype packet_type = PACKET_STAT | PACKET_REQ | PACKET_DATA | PACKET_FIN | PACKET_ERR

record packet =
  Type :: packet_type
  Stat :: "stat option"
  ID :: "32 word"
  Data :: bytes

text \<open>What one call of \<^verbatim>\<open>r.conn.RecvMsg(&p)\<close> yields: a packet, or an error
  (\<open>EOF\<close> at the end of the stream).\<close>

datatype recv = RecvOk packet | RecvErr error

subsection \<open>Paths and modes\<close>

definition metadataPath :: string where
  "metadataPath = ''.fsutil-metadata''"

text \<open>\<^verbatim>\<open>filepath.FromSlash\<close> and \<^verbatim>\<open>filepath.ToSlash\<close> of the Go library, for a platform
  whose \<^verbatim>\<open>os.PathSeparator\<close> is \<open>sep\<close>: the identity where the separator is the slash,
  otherwise every slash (every separator) is replaced.\<close>

definition FromSlash :: "char \<Rightarrow> string \<Rightarrow> string" where
  "FromSlash sep p = (if sep = CHR ''/'' then p else map (\<lambda>c. if c = CHR ''/'' then sep else c) p)"

definition ToSlash :: "char \<Rightarrow> string \<Rightarrow> string" where
  "ToSlash sep p = (if sep = CHR ''/'' then p else map (\<lambda>c. if c = sep then CHR ''/'' else c) p)"

text \<open>\<^verbatim>\<open>os.FileMode(m).IsDir()\<close>: the bit \<^verbatim>\<open>os.ModeDir = 1 << 31\<close> is set.\<close>

definition ModeDir :: "32 word" where
  "ModeDir = 0x80000000"

definition IsDir :: "32 word \<Rightarrow> bool" where
  "IsDir m = (m AND ModeDir \<noteq> 0)"

text \<open>Modelled from the spec: \<^verbatim>\<open>fileCanRequestData\<close> is defined in send.go, outside the
  sources at hand. An entry is eligible to carry content when it is a regular file, that
  is, when none of the type bits \<^verbatim>\<open>os.ModeType\<close> of its mode is set.\<close>

definition ModeType :: "32 word" where
  "ModeType = 0x8F280000"

definition fileCanRequestData :: "32 word \<Rightarrow> bool" where
  "fileCanRequestData m = (m AND ModeType = 0)"

subsection \<open>The stack\<close>

record currentPath =
  path :: string
  stat :: stat

text \<open>\<^verbatim>\<open>stack[T]\<close>: the field \<^verbatim>\<open>items\<close>, last pushed last.\<close>

type_synonym 'a stack = "'a list"

definition newStack :: "'a stack" where
  "newStack = []"

definition push :: "'a stack \<Rightarrow> 'a \<Rightarrow> 'a stack" where
  "push s v = s @ [v]"

definition pop :: "'a stack \<Rightarrow> 'a option \<times> 'a stack" where
  "pop s = (if length s = 0 then (None, s) else (Some (last s), butlast s))"

definition peek :: "'a stack \<Rightarrow> 'a option" where
  "peek s = (if length s = 0 then None else Some (last s))"

definition clear :: "'a stack \<Rightarrow> 'a stack" where
  "clear s = take 0 s"

subsection \<open>The receiver's state\<close>

text \<open>\<^verbatim>\<open>wrappedWriteCloser\<close>: the wrapped sink (a reference to the caller's
  \<^verbatim>\<open>io.WriteCloser\<close> and the bytes written through to it so far), the field \<^verbatim>\<open>err\<close> and
  whether the channel \<^verbatim>\<open>done\<close> is closed.\<close>

record wrappedWriteCloser =
  WriteCloser :: nat
  written :: bytes
  w_err :: "error option"
  w_done :: bool

definition newWrappedWriteCloser :: "nat \<Rightarrow> wrappedWriteCloser" where
  "newWrappedWriteCloser wc = \<lparr>WriteCloser = wc, written = [], w_err = None, w_done = False\<rparr>"

text \<open>
  The state shared by the two goroutines and the callback, and the locals of the
  packet-dispatch goroutine:
  \<^item> \<open>files\<close>, \<open>pipes\<close>: the maps \<^verbatim>\<open>r.files\<close> and \<^verbatim>\<open>r.pipes\<close>; a value of \<open>pipes\<close> is
    a pointer, here an index into the store \<open>sinks\<close> of wrapped sinks;
  \<^item> \<open>sent\<close>: the packets handed to \<^verbatim>\<open>r.conn.SendMsg\<close> that it accepted, in order;
  \<^item> \<open>i_ctr\<close>: the local \<^verbatim>\<open>i\<close>; \<open>metadataBuffer\<close>, \<open>metadataParents\<close>: the locals of
    the same names;
  \<^item> \<open>orderValidator\<close>, \<open>hlValidator\<close>: the states of the two validators;
  \<^item> \<open>walkChan\<close>: the entries sent into \<^verbatim>\<open>w.walkChan\<close>, in order; \<open>walkChanClosed\<close>:
    that channel is closed; \<open>closeCh\<close>: \<open>Some e\<close> when \<^verbatim>\<open>w.closeCh\<close> is closed with
    \<^verbatim>\<open>w.err = e\<close>.
\<close>

record ('ov, 'hv) receiver =
  files :: "string \<rightharpoonup> 32 word"
  pipes :: "32 word \<rightharpoonup> nat"
  sinks :: "wrappedWriteCloser list"
  sent :: "packet list"
  i_ctr :: "32 word"
  metadataBuffer :: bytes
  metadataParents :: "currentPath stack"
  orderValidator :: 'ov
  hlValidator :: 'hv
  walkChan :: "currentPath list"
  walkChanClosed :: bool
  closeCh :: "error option"

text \<open>
  What the receiver is configured with and what its collaborators do:
  \<^item> \<open>separator\<close>: \<^verbatim>\<open>os.PathSeparator\<close>; \<open>Dir\<close>: \<^verbatim>\<open>filepath.Dir\<close> of the platform;
  \<^item> \<open>metadataOnly\<close>: the option \<^verbatim>\<open>MetadataOnly\<close>, \<open>None\<close> for \<^verbatim>\<open>nil\<close>;
  \<^item> \<open>SizeVT\<close>, \<open>MarshalToSizedBufferVT\<close>: the codec; the latter yields the error it
    returns and the bytes it leaves in the slice \<^verbatim>\<open>dt[4:]\<close>;
  \<^item> \<open>order_HandleChange\<close>, \<open>hl_HandleChange\<close>: \<^verbatim>\<open>HandleChange(ChangeKindAdd, path, stat, nil)\<close>
    of the ordering and of the hardlink validator: a rejection, or the validator's next state;
  \<^item> \<open>sink_Write\<close>, \<open>sink_Close\<close>: \<^verbatim>\<open>Write\<close> and \<^verbatim>\<open>Close\<close> of the caller's sink, given
    the sink, what was written to it before and, for a write, the chunk: the error returned.
\<close>

record ('ov, 'hv) env =
  separator :: char
  Dir :: "string \<Rightarrow> string"
  metadataOnly :: "(string \<Rightarrow> stat \<Rightarrow> bool) option"
  SizeVT :: "stat \<Rightarrow> nat"
  MarshalToSizedBufferVT :: "stat \<Rightarrow> error option \<times> bytes"
  order_HandleChange :: "'ov \<Rightarrow> string \<Rightarrow> stat \<Rightarrow> error + 'ov"
  hl_HandleChange :: "'hv \<Rightarrow> string \<Rightarrow> stat \<Rightarrow> error + 'hv"
  sink_Write :: "nat \<Rightarrow> bytes \<Rightarrow> bytes \<Rightarrow> error option"
  sink_Close :: "nat \<Rightarrow> bytes \<Rightarrow> error option"

text \<open>The state \<^verbatim>\<open>Receive\<close> starts \<^verbatim>\<open>run\<close> with: empty maps, the counter at 0, an empty
  buffer and stack, the validators in their initial states, a fresh walker.\<close>

definition Receive_init :: "'ov \<Rightarrow> 'hv \<Rightarrow> ('ov, 'hv) receiver" where
  "Receive_init ov hv =
     \<lparr>files = Map.empty, pipes = Map.empty, sinks = [], sent = [], i_ctr = 0,
      metadataBuffer = [], metadataParents = newStack, orderValidator = ov, hlValidator = hv,
      walkChan = [], walkChanClosed = False, closeCh = None\<rparr>"

subsection \<open>The walker feed\<close>

text \<open>\<^verbatim>\<open>dynamicWalker.update\<close>: an error once \<^verbatim>\<open>closeCh\<close> is closed; \<^verbatim>\<open>nil\<close> closes
  \<^verbatim>\<open>walkChan\<close>; any other entry is sent into it. Closing a closed channel and sending on a
  closed channel panic. A send that finds the channel full waits for the consumer; the
  embedding records the entries in the order they are sent.\<close>

definition update ::
  "('ov, 'hv) receiver \<Rightarrow> currentPath option \<Rightarrow> error + ('ov, 'hv) receiver" where
  "update r p =
     (case closeCh r of
        Some e \<Rightarrow> Inl (WalkerClosed e)
      | None \<Rightarrow>
          (case p of
             None \<Rightarrow>
               if walkChanClosed r then Inl (Panic ''close of closed channel'')
               else Inr (r\<lparr>walkChanClosed := True\<rparr>)
           | Some cp \<Rightarrow>
               if walkChanClosed r then Inl (Panic ''send on closed channel'')
               else Inr (r\<lparr>walkChan := walkChan r @ [cp]\<rparr>)))"

subsection \<open>One iteration of the dispatch loop\<close>

text \<open>An iteration either goes on to the next \<^verbatim>\<open>RecvMsg\<close> or returns from the goroutine,
  with an error or with \<^verbatim>\<open>nil\<close>.\<close>

datatype ('ov, 'hv) outcome =
    is_Continue: Continue (after: "('ov, 'hv) receiver")
  | is_Return: Return (returns: "error option") (after: "('ov, 'hv) receiver")

text \<open>Lines 286--290: the buffered entries are sent to the walker in the order they were
  pushed; the first error stops the loop.\<close>

fun replay ::
  "('ov, 'hv) receiver \<Rightarrow> currentPath list \<Rightarrow> error \<times> ('ov, 'hv) receiver + ('ov, 'hv) receiver" where
  "replay r [] = Inr r"
| "replay r (cp # cps) =
     (case update r (Some cp) of Inl e \<Rightarrow> Inl (e, r) | Inr r' \<Rightarrow> replay r' cps)"

text \<open>Lines 273--279: pop until the stack is empty or its top is the parent.\<close>

function trimParents :: "string \<Rightarrow> currentPath stack \<Rightarrow> currentPath stack" where
  "trimParents parent s =
     (case peek s of
        None \<Rightarrow> s
      | Some l \<Rightarrow> if parent = path l then s else trimParents parent (snd (pop s)))"
  by pat_completeness auto
termination
  by (relation "measure (\<lambda>(parent, s). length s)") (auto simp: peek_def pop_def split: if_splits)

declare trimParents.simps [simp del]

text \<open>Lines 295--297: the entry itself is sent to the walker.\<close>

definition forward :: "('ov, 'hv) receiver \<Rightarrow> currentPath \<Rightarrow> ('ov, 'hv) outcome" where
  "forward r cp = (case update r (Some cp) of Inl e \<Rightarrow> Return (Some e) r | Inr r' \<Rightarrow> Continue r')"

text \<open>Lines 270--293, entered when a metadata-only filter is configured.\<close>

definition replayParents ::
  "('ov, 'hv) env \<Rightarrow> ('ov, 'hv) receiver \<Rightarrow> currentPath \<Rightarrow> bool \<Rightarrow> ('ov, 'hv) outcome" where
  "replayParents E r cp metaOnly =
     (let parent = Dir E (path cp);
          isDir = IsDir (Mode (stat cp));
          s1 = trimParents parent (metadataParents r);
          s2 = (if isDir then push s1 cp else s1);
          r1 = r\<lparr>metadataParents := s2\<rparr>
      in if metaOnly then Continue r1
         else (case replay r1 (metadataParents r1) of
                 Inl (e, r2) \<Rightarrow> Return (Some e) r2
               | Inr r2 \<Rightarrow> forward (r2\<lparr>metadataParents := clear (metadataParents r2)\<rparr>) cp))"

text \<open>Lines 263--297: the ordering validator, then the hardlink validator, then the
  forwarding.\<close>

definition validate ::
  "('ov, 'hv) env \<Rightarrow> ('ov, 'hv) receiver \<Rightarrow> currentPath \<Rightarrow> bool \<Rightarrow> ('ov, 'hv) outcome" where
  "validate E r cp metaOnly =
     (case order_HandleChange E (orderValidator r) (path cp) (stat cp) of
        Inl e \<Rightarrow> Return (Some e) r
      | Inr ov \<Rightarrow>
          (let r1 = r\<lparr>orderValidator := ov\<rparr> in
           case hl_HandleChange E (hlValidator r1) (path cp) (stat cp) of
             Inl e \<Rightarrow> Return (Some e) r1
           | Inr hv \<Rightarrow>
               (let r2 = r1\<lparr>hlValidator := hv\<rparr> in
                if metadataOnly E \<noteq> None then replayParents E r2 cp metaOnly
                else forward r2 cp)))"

text \<open>Lines 253--261: the record takes the native path and link name; a content-eligible
  entry that the filter did not reject is entered into \<^verbatim>\<open>r.files\<close> under the counter,
  and the counter is incremented.\<close>

definition register ::
  "('ov, 'hv) env \<Rightarrow> ('ov, 'hv) receiver \<Rightarrow> stat \<Rightarrow> string \<Rightarrow> bool \<Rightarrow> ('ov, 'hv) outcome" where
  "register E r st p metaOnly =
     (let st1 = st\<lparr>Path := p, Linkname := FromSlash (separator E) (Linkname st)\<rparr>;
          r1 = (if \<not> metaOnly \<and> fileCanRequestData (Mode st1)
                then r\<lparr>files := (files r)(Path st1 \<mapsto> i_ctr r)\<rparr> else r);
          r2 = r1\<lparr>i_ctr := i_ctr r1 + 1\<rparr>
      in validate E r2 \<lparr>path = p, stat = st1\<rparr> metaOnly)"

text \<open>Lines 231--252: the path check, the skip of the reserved name, the framed copy of the
  record into the buffer and the filter.\<close>

definition handleStat ::
  "('ov, 'hv) env \<Rightarrow> ('ov, 'hv) receiver \<Rightarrow> stat \<Rightarrow> ('ov, 'hv) outcome" where
  "handleStat E r st =
     (let p = FromSlash (separator E) (Path st) in
      if ToSlash (separator E) p \<noteq> Path st
      then Return (Some (PathError ''unrepresentable path'' (Path st) EINVAL)) r
      else (case metadataOnly E of
              None \<Rightarrow> register E r st p False
            | Some f \<Rightarrow>
                if p = metadataPath then Continue r
                else (let n = SizeVT E st;
                          (merr, dt) = MarshalToSizedBufferVT E st;
                          r1 = r\<lparr>metadataBuffer := metadataBuffer r @ putUint32 n @ dt\<rparr>
                      in case merr of
                           Some e \<Rightarrow> Return (Some e) r1
                         | None \<Rightarrow> register E r1 st p (\<not> f p st))))"

text \<open>Lines 298--313: a data packet.\<close>

definition handleData ::
  "('ov, 'hv) env \<Rightarrow> ('ov, 'hv) receiver \<Rightarrow> packet \<Rightarrow> ('ov, 'hv) outcome" where
  "handleData E r p =
     (case pipes r (ID p) of
        None \<Rightarrow> Return (Some (Errorf (''invalid file request '' @ show_u32 (ID p)))) r
      | Some a \<Rightarrow>
          if a < length (sinks r) then
            (let pw = sinks r ! a in
             if length (Data p) = 0 then
               (let e = sink_Close E (WriteCloser pw) (written pw);
                    r1 = r\<lparr>sinks := (sinks r)[a := pw\<lparr>w_err := e, w_done := True\<rparr>]\<rparr>
                in case e of Some x \<Rightarrow> Return (Some x) r1 | None \<Rightarrow> Continue r1)
             else
               (case sink_Write E (WriteCloser pw) (written pw) (Data p) of
                  Some x \<Rightarrow> Return (Some x) r
                | None \<Rightarrow> Continue (r\<lparr>sinks := (sinks r)[a := pw\<lparr>written := written pw @ Data p\<rparr>]\<rparr>)))
          else Return (Some (Panic ''invalid memory address or nil pointer dereference'')) r)"

text \<open>Lines 315--323: after \<^verbatim>\<open>PACKET_FIN\<close> the loop only receives; the end of the stream
  returns \<^verbatim>\<open>nil\<close>, any other failure is returned. \<open>None\<close>: the stream has delivered
  nothing more yet, the goroutine is waiting in \<^verbatim>\<open>RecvMsg\<close>.\<close>

fun drain :: "recv list \<Rightarrow> error option option" where
  "drain [] = None"
| "drain (RecvOk p # rest) = drain rest"
| "drain (RecvErr e # rest) = Some (if e = EOF then None else Some e)"

text \<open>Lines 224--229: the empty Stat packet closes the feed of the walker.\<close>

definition emptyStat :: "('ov, 'hv) receiver \<Rightarrow> ('ov, 'hv) outcome" where
  "emptyStat r = (case update r None of Inl e \<Rightarrow> Return (Some e) r | Inr r' \<Rightarrow> Continue r')"

text \<open>Lines 220--324: the switch on the packet type, \<^verbatim>\<open>PACKET_FIN\<close> apart. A packet of
  type \<^verbatim>\<open>PACKET_REQ\<close> matches no case.\<close>

definition dispatch ::
  "('ov, 'hv) env \<Rightarrow> ('ov, 'hv) receiver \<Rightarrow> packet \<Rightarrow> ('ov, 'hv) outcome" where
  "dispatch E r p =
     (case Type p of
        PACKET_ERR \<Rightarrow> Return (Some (Errorf (''error from sender: '' @ Data p))) r
      | PACKET_STAT \<Rightarrow>
          (case Stat p of
             None \<Rightarrow> emptyStat r
           | Some st \<Rightarrow> handleStat E r st)
      | PACKET_DATA \<Rightarrow> handleData E r p
      | _ \<Rightarrow> Continue r)"

text \<open>Lines 210--325: the loop, over what the stream delivers. \<open>Returned err r\<close>: the
  goroutine has returned \<open>err\<close>; \<open>Waiting r\<close>: it is waiting in \<^verbatim>\<open>RecvMsg\<close>.\<close>

datatype ('ov, 'hv) result =
    is_Returned: Returned (returned: "error option") (final: "('ov, 'hv) receiver")
  | is_Waiting: Waiting (final: "('ov, 'hv) receiver")

fun run :: "('ov, 'hv) env \<Rightarrow> ('ov, 'hv) receiver \<Rightarrow> recv list \<Rightarrow> ('ov, 'hv) result" where
  "run E r [] = Waiting r"
| "run E r (RecvErr e # rest) = Returned (Some e) r"
| "run E r (RecvOk p # rest) =
     (if Type p = PACKET_FIN then
        (case drain rest of None \<Rightarrow> Waiting r | Some err \<Rightarrow> Returned err r)
      else (case dispatch E r p of
              Continue r' \<Rightarrow> run E r' rest
            | Return err r' \<Rightarrow> Returned err r'))"

subsection \<open>The content-pull callback\<close>

text \<open>
  \<^verbatim>\<open>receiver.asyncDataFunc\<close> blocks in \<^verbatim>\<open>wwc.Wait(ctx)\<close> while the dispatch loop goes on, so
  it is embedded in two halves. \<open>asyncDataFunc\<close> is lines 351--366, up to and including
  the \<^verbatim>\<open>SendMsg\<close> of the request: \<open>wc\<close> is the caller's sink and \<open>sendErr\<close> is what that
  \<^verbatim>\<open>SendMsg\<close> returns. It yields the error it returns at once, or the identifier and the
  wrapped sink it goes on to wait for.
\<close>

definition asyncDataFunc ::
  "('ov, 'hv) receiver \<Rightarrow> string \<Rightarrow> nat \<Rightarrow> error option \<Rightarrow>
     (error + 32 word \<times> nat) \<times> ('ov, 'hv) receiver" where
  "asyncDataFunc r p wc sendErr =
     (case files r p of
        None \<Rightarrow> (Inl (Errorf (''invalid file request '' @ p)), r)
      | Some fid \<Rightarrow>
          (let r1 = r\<lparr>files := (files r)(p := None)\<rparr>;
               wwc = length (sinks r1);
               r2 = r1\<lparr>sinks := sinks r1 @ [newWrappedWriteCloser wc]\<rparr>;
               r3 = r2\<lparr>pipes := (pipes r2)(fid \<mapsto> wwc)\<rparr>
           in case sendErr of
                Some e \<Rightarrow> (Inl e, r3)
              | None \<Rightarrow> (Inr (fid, wwc), r3\<lparr>sent := sent r3 @ [\<lparr>Type = PACKET_REQ, Stat = None, ID = fid, Data = []\<rparr>]\<rparr>)))"

text \<open>
  Lines 367--374, from the moment \<^verbatim>\<open>wwc.Wait(ctx)\<close> returns. \<open>Cancelled e\<close>: the \<^verbatim>\<open>select\<close>
  took \<^verbatim>\<open>ctx.Done()\<close> and \<^verbatim>\<open>ctx.Err()\<close> is \<open>e\<close>; \<open>Closed\<close>: it took \<^verbatim>\<open>w.done\<close>, which
  it can only when that channel is closed (\<open>None\<close> otherwise: still waiting).
\<close>

datatype wake = Cancelled error | Closed

definition asyncDataFunc_Wait ::
  "('ov, 'hv) receiver \<Rightarrow> 32 word \<Rightarrow> nat \<Rightarrow> wake \<Rightarrow> (error option \<times> ('ov, 'hv) receiver) option" where
  "asyncDataFunc_Wait r fid wwc w =
     (case w of
        Cancelled e \<Rightarrow> Some (Some e, r)
      | Closed \<Rightarrow>
          if wwc < length (sinks r) \<and> w_done (sinks r ! wwc) then
            (case w_err (sinks r ! wwc) of
               Some e \<Rightarrow> Some (Some e, r)
             | None \<Rightarrow> Some (None, r\<lparr>pipes := (pipes r)(fid := None)\<rparr>))
          else None)"

subsection \<open>After the goroutines have joined\<close>

text \<open>
  Lines 328--347. \<open>gWait\<close> is what \<^verbatim>\<open>g.Wait()\<close> returns, \<open>join\<close> is \<^verbatim>\<open>filepath.Join\<close>; the
  operating system is a collaborator, so the embedding yields the calls made to it, in
  order, given what \<^verbatim>\<open>OpenFile\<close>, \<^verbatim>\<open>WriteTo\<close> and \<^verbatim>\<open>Close\<close> return. The result of
  \<^verbatim>\<open>os.Remove\<close> is not looked at. The permission bits \<^verbatim>\<open>0644\<close> are octal, 420.
\<close>

datatype open_flag = O_WRONLY | O_CREATE | O_TRUNC

datatype os_call =
    os_Remove string
  | os_OpenFile string "open_flag list" nat
  | WriteTo bytes
  | Close

record os_results =
  openErr :: "error option"
  writeErr :: "error option"
  closeErr :: "error option"

definition persist ::
  "('ov, 'hv) env \<Rightarrow> (string \<Rightarrow> string \<Rightarrow> string) \<Rightarrow> string \<Rightarrow> ('ov, 'hv) receiver \<Rightarrow>
     error option \<Rightarrow> os_results \<Rightarrow> error option \<times> os_call list" where
  "persist E join dest r gWait os =
     (case gWait of
        Some e \<Rightarrow> (Some e, [])
      | None \<Rightarrow>
          if metadataOnly E = None then (None, [])
          else (let c1 = [os_Remove (join dest metadataPath)];
                    c2 = c1 @ [os_OpenFile (join dest metadataPath) [O_WRONLY, O_CREATE, O_TRUNC] 420]
                in case openErr os of
                     Some e \<Rightarrow> (Some e, c2)
                   | None \<Rightarrow>
                       (case writeErr os of
                          Some e \<Rightarrow> (Some e, c2 @ [WriteTo (metadataBuffer r), Close])
                        | None \<Rightarrow> (closeErr os, c2 @ [WriteTo (metadataBuffer r), Close]))))"

subsection \<open>The goroutines interleaved\<close>

text \<open>
  The dispatch goroutine and the calls of the content-pull callback run concurrently on
  the shared maps, each access under the mutex. An execution is a sequence of events: the
  stream delivers something to the dispatch loop (\<open>Delivered\<close>), the disk writer calls
  \<^verbatim>\<open>asyncDataFunc\<close> for a path (\<open>Asked\<close>, with the sink and what \<^verbatim>\<open>SendMsg\<close> returns), or a
  call blocked in \<^verbatim>\<open>Wait\<close> wakes up (\<open>Woken\<close>). The loop is dispatching, draining after a
  Finish packet, or has returned.
\<close>

datatype phase = Dispatching | Draining | Ended "error option"

datatype event =
    Delivered recv
  | Asked string nat "error option"
  | Woken "32 word" nat wake

fun step ::
  "('ov, 'hv) env \<Rightarrow> phase \<times> ('ov, 'hv) receiver \<Rightarrow> event \<Rightarrow> phase \<times> ('ov, 'hv) receiver" where
  "step E (Dispatching, r) (Delivered (RecvErr e)) = (Ended (Some e), r)"
| "step E (Dispatching, r) (Delivered (RecvOk p)) =
     (if Type p = PACKET_FIN then (Draining, r)
      else (case dispatch E r p of
              Continue r' \<Rightarrow> (Dispatching, r')
            | Return err r' \<Rightarrow> (Ended err, r')))"
| "step E (Draining, r) (Delivered (RecvErr e)) = (Ended (if e = EOF then None else Some e), r)"
| "step E (Draining, r) (Delivered (RecvOk p)) = (Draining, r)"
| "step E (Ended err, r) (Delivered d) = (Ended err, r)"
| "step E (ph, r) (Asked p wc sendErr) = (ph, snd (asyncDataFunc r p wc sendErr))"
| "step E (ph, r) (Woken fid wwc w) =
     (case asyncDataFunc_Wait r fid wwc w of None \<Rightarrow> (ph, r) | Some (err, r') \<Rightarrow> (ph, r'))"

definition execute ::
  "('ov, 'hv) env \<Rightarrow> ('ov, 'hv) receiver \<Rightarrow> event list \<Rightarrow> phase \<times> ('ov, 'hv) receiver" where
  "execute E r evs = foldl (step E) (Dispatching, r) evs"

text \<open>The identifiers of the Request packets sent so far, in order.\<close>

definition requested :: "('ov, 'hv) receiver \<Rightarrow> 32 word list" where
  "requested r = map ID (filter (\<lambda>p. Type p = PACKET_REQ) (sent r))"

subsection \<open>The validators\<close>

text \<open>Go compares strings byte by byte.\<close>

fun str_less :: "string \<Rightarrow> string \<Rightarrow> bool" where
  "str_less [] [] = False"
| "str_less [] (y # ys) = True"
| "str_less (x # xs) [] = False"
| "str_less (x # xs) (y # ys) =
     ((of_char x :: nat) < of_char y \<or> (x = y \<and> str_less xs ys))"

text \<open>Modelled from the spec: \<^verbatim>\<open>Validator.HandleChange\<close> is defined in validator.go, outside
  the sources at hand. The ordering validator maintains the last-seen path and rejects an
  incoming entry that is not strictly greater.\<close>

definition Validator_HandleChange :: "string option \<Rightarrow> string \<Rightarrow> stat \<Rightarrow> error + string option" where
  "Validator_HandleChange last_seen p st =
     (case last_seen of
        None \<Rightarrow> Inr (Some p)
      | Some l \<Rightarrow> if str_less l p then Inr (Some p) else Inl (External ''changes out of order''))"

text \<open>Modelled from the spec: \<^verbatim>\<open>Hardlinks.HandleChange\<close> is defined in hardlinks.go, outside
  the sources at hand. The hardlink validator maintains the set of paths seen so far that
  are eligible link targets (regular, content-eligible entries) and rejects a hardlink
  entry, a content-eligible entry with a link target, whose target was not already seen.\<close>

definition Hardlinks_HandleChange :: "string set \<Rightarrow> string \<Rightarrow> stat \<Rightarrow> error + string set" where
  "Hardlinks_HandleChange seen p st =
     (if \<not> fileCanRequestData (Mode st) then Inr seen
      else if Linkname st \<noteq> [] \<and> Linkname st \<notin> seen then Inl (External ''invalid link'')
      else Inr (insert p seen))"

subsection \<open>A slash-separated platform\<close>

text \<open>\<^verbatim>\<open>filepath.Clean\<close> and \<^verbatim>\<open>filepath.Dir\<close> of the Go library where the separator is the
  slash and there are no volume names: \<open>Clean\<close> drops empty and \<open>.\<close> elements, lets a
  \<open>..\<close> element remove the element before it (at the start it stays, or is dropped in a
  rooted path), and turns the empty result into \<open>.\<close>; \<open>Dir\<close> cleans what comes before
  the last element.\<close>

fun splitSlash :: "string \<Rightarrow> string list" where
  "splitSlash [] = [[]]"
| "splitSlash (c # cs) =
     (if c = CHR ''/'' then [] # splitSlash cs
      else (case splitSlash cs of [] \<Rightarrow> [[c]] | x # xs \<Rightarrow> (c # x) # xs))"

fun cleanElems :: "bool \<Rightarrow> string list \<Rightarrow> string list \<Rightarrow> string list" where
  "cleanElems rooted out [] = out"
| "cleanElems rooted out (e # es) =
     (if e = [] \<or> e = ''.'' then cleanElems rooted out es
      else if e = ''..'' then
        (if out \<noteq> [] \<and> last out \<noteq> ''..'' then cleanElems rooted (butlast out) es
         else if \<not> rooted then cleanElems rooted (out @ [e]) es
         else cleanElems rooted out es)
      else cleanElems rooted (out @ [e]) es)"

fun joinSlash :: "string list \<Rightarrow> string" where
  "joinSlash [] = []"
| "joinSlash [e] = e"
| "joinSlash (e # es) = e @ ''/'' @ joinSlash es"

definition Clean_slash :: "string \<Rightarrow> string" where
  "Clean_slash p =
     (let rooted = (p \<noteq> [] \<and> hd p = CHR ''/'');
          out = (if rooted then ''/'' else []) @ joinSlash (cleanElems rooted [] (splitSlash p))
      in if out = [] then ''.'' else out)"

definition Dir_slash :: "string \<Rightarrow> string" where
  "Dir_slash p = Clean_slash (rev (dropWhile (\<lambda>c. c \<noteq> CHR ''/'') (rev p)))"

text \<open>A receiver on such a platform, with the two validators above, a codec given by
  \<open>marshal\<close> that never fails, sinks that never fail, and the filter \<open>mo\<close>.\<close>

definition slash_env ::
  "(string \<Rightarrow> stat \<Rightarrow> bool) option \<Rightarrow> (stat \<Rightarrow> bytes) \<Rightarrow> (string option, string set) env" where
  "slash_env mo marshal =
     \<lparr>separator = CHR ''/'', Dir = Dir_slash, metadataOnly = mo,
      SizeVT = (\<lambda>st. length (marshal st)),
      MarshalToSizedBufferVT = (\<lambda>st. (None, marshal st)),
      order_HandleChange = Validator_HandleChange,
      hl_HandleChange = Hardlinks_HandleChange,
      sink_Write = (\<lambda>wc before chunk. None),
      sink_Close = (\<lambda>wc before. None)\<rparr>"

text \<open>In the examples the opaque codec is stood in for by one that writes the path.\<close>

definition path_codec :: "stat \<Rightarrow> bytes" where
  "path_codec st = Path st"

definition mkStat :: "string \<Rightarrow> 32 word \<Rightarrow> stat" where
  "mkStat p m =
     \<lparr>Path = p, Mode = m, Uid = 0, Gid = 0, Size = 0, ModTime = 0, Linkname = [],
      Devmajor = 0, Devminor = 0, Xattrs = []\<rparr>"

definition statPacket :: "stat \<Rightarrow> packet" where
  "statPacket st = \<lparr>Type = PACKET_STAT, Stat = Some st, ID = 0, Data = []\<rparr>"

definition errPacket :: "bytes \<Rightarrow> packet" where
  "errPacket msg = \<lparr>Type = PACKET_ERR, Stat = None, ID = 0, Data = msg\<rparr>"

definition finPacket :: packet where
  "finPacket = \<lparr>Type = PACKET_FIN, Stat = None, ID = 0, Data = []\<rparr>"

definition dataPacket :: "32 word \<Rightarrow> bytes \<Rightarrow> packet" where
  "dataPacket fid chunk = \<lparr>Type = PACKET_DATA, Stat = None, ID = fid, Data = chunk\<rparr>"

subsection \<open>Notions used in the statements\<close>

text \<open>The record as lines 253--254 leave it: path and link name in native form.\<close>

definition native :: "('ov, 'hv) env \<Rightarrow> stat \<Rightarrow> stat" where
  "native E st =
     st\<lparr>Path := FromSlash (separator E) (Path st),
        Linkname := FromSlash (separator E) (Linkname st)\<rparr>"

text \<open>A record is consumed when the loop reaches lines 253--269 with it: its path survives
  the conversion and, with a metadata-only filter, it is not the reserved name and the
  codec has copied it into the buffer without error.\<close>

definition consumed :: "('ov, 'hv) env \<Rightarrow> stat \<Rightarrow> bool" where
  "consumed E st =
     (ToSlash (separator E) (FromSlash (separator E) (Path st)) = Path st \<and>
      (case metadataOnly E of
         None \<Rightarrow> True
       | Some f \<Rightarrow>
           FromSlash (separator E) (Path st) \<noteq> metadataPath \<and>
           fst (MarshalToSizedBufferVT E st) = None))"



text \<open>The value of the local \<^verbatim>\<open>metaOnly\<close> for a record: the filter is configured and does
  not accept it.\<close>

definition metaOnly_of :: "('ov, 'hv) env \<Rightarrow> stat \<Rightarrow> bool" where
  "metaOnly_of E st =
     (case metadataOnly E of
        None \<Rightarrow> False
      | Some f \<Rightarrow> \<not> f (FromSlash (separator E) (Path st)) st)"

text \<open>The walker takes entries; and the error \<^verbatim>\<open>update\<close> yields for an entry when it does
  not.\<close>

definition walker_open :: "('ov, 'hv) receiver \<Rightarrow> bool" where
  "walker_open r = (closeCh r = None \<and> \<not> walkChanClosed r)"

definition walker_error :: "('ov, 'hv) receiver \<Rightarrow> error" where
  "walker_error r =
     (case closeCh r of Some e \<Rightarrow> WalkerClosed e | None \<Rightarrow> Panic ''send on closed channel'')"

text \<open>The stack as lines 271--282 leave it, and lines 270--297 as one step.\<close>

definition stack_after :: "('ov, 'hv) env \<Rightarrow> ('ov, 'hv) receiver \<Rightarrow> currentPath \<Rightarrow> currentPath list" where
  "stack_after E r cp =
     trimParents (Dir E (path cp)) (metadataParents r) @ (if IsDir (Mode (stat cp)) then [cp] else [])"

definition deliver ::
  "('ov, 'hv) env \<Rightarrow> ('ov, 'hv) receiver \<Rightarrow> currentPath \<Rightarrow> bool \<Rightarrow> ('ov, 'hv) outcome" where
  "deliver E r cp m = (if metadataOnly E \<noteq> None then replayParents E r cp m else forward r cp)"

text \<open>What holds of the two tables and of the requests sent after at most \<open>k\<close> events:
  the counter has not passed \<open>k\<close>, every pending identifier is below the counter, no two
  pending paths share an identifier, and the identifiers requested so far are below the
  counter, no longer pending and pairwise distinct.\<close>

definition tables_ok :: "nat \<Rightarrow> ('ov, 'hv) receiver \<Rightarrow> bool" where
  "tables_ok k r =
     (unat (i_ctr r) \<le> k \<and>
      (\<forall>p fid. files r p = Some fid \<longrightarrow> fid < i_ctr r) \<and>
      inj_on (files r) (dom (files r)) \<and>
      (\<forall>fid \<in> set (requested r). fid < i_ctr r \<and> fid \<notin> ran (files r)) \<and>
      distinct (requested r))"

text \<open>The receiver configured with the metadata-only filter \<open>f\<close>.\<close>

definition with_filter :: "('ov, 'hv) env \<Rightarrow> (string \<Rightarrow> stat \<Rightarrow> bool) \<Rightarrow> ('ov, 'hv) env" where
  "with_filter E f = E\<lparr>metadataOnly := Some f\<rparr>"

text \<open>The state apart from the pending table, the walker feed and the ancestor stack.\<close>

definition apart_from_forwarding :: "('ov, 'hv) receiver \<Rightarrow> ('ov, 'hv) receiver" where
  "apart_from_forwarding r = r\<lparr>files := Map.empty, walkChan := [], metadataParents := []\<rparr>"

subsection \<open>Example states\<close>

text \<open>The receiver without a filter after the Stat packet of a regular file \<open>f\<close>, and
  then after the disk writer has asked for the content of \<open>f\<close> with the sink 7.\<close>

definition ex_listed :: "(string option, string set) receiver" where
  "ex_listed =
     final (run (slash_env None path_codec) (Receive_init None {})
              [RecvOk (statPacket (mkStat ''f'' 0x1A4))])"

definition ex_open :: "(string option, string set) receiver" where
  "ex_open = snd (asyncDataFunc ex_listed ''f'' 7 None)"

text \<open>Then after the empty chunk for identifier 0 has closed that sink, and after the
  callback has woken up on the close.\<close>

definition ex_closed :: "(string option, string set) receiver" where
  "ex_closed = after (dispatch (slash_env None path_codec) ex_open (dataPacket 0 []))"

definition ex_done :: "(string option, string set) receiver" where
  "ex_done = snd (the (asyncDataFunc_Wait ex_closed 0 0 Closed))"

text \<open>\<^verbatim>\<open>filepath.Join\<close> of two elements where the separator is the slash: empty elements are
  ignored, the rest is joined by a slash and cleaned.\<close>

definition Join_slash :: "string \<Rightarrow> string \<Rightarrow> string" where
  "Join_slash a b =
     (if a = [] \<and> b = [] then []
      else if a = [] then Clean_slash b
      else if b = [] then Clean_slash a
      else Clean_slash (a @ ''/'' @ b))"

text \<open>The filters of the examples: one that accepts every entry, one that accepts none,
  one that accepts only \<open>dir/sub/match\<close>.\<close>

definition accept_all :: "string \<Rightarrow> stat \<Rightarrow> bool" where
  "accept_all p st = True"

definition accept_none :: "string \<Rightarrow> stat \<Rightarrow> bool" where
  "accept_none p st = False"

definition accept_match :: "string \<Rightarrow> stat \<Rightarrow> bool" where
  "accept_match p st = (p = ''dir/sub/match'')"


text \<open>The receiver with the filter that accepts everything, after the Stat packet of a
  regular file \<open>f\<close>.\<close>

definition ex_meta :: "(string option, string set) receiver" where
  "ex_meta =
     final (run (slash_env (Some accept_all) path_codec) (Receive_init None {})
              [RecvOk (statPacket (mkStat ''f'' 0x1A4))])"

section \<open>Properties\<close>

subsection \<open>Evaluating the receiver on examples\<close>

lemmas run_defs = dispatch_def emptyStat_def handleStat_def register_def validate_def forward_def
  update_def
  replayParents_def handleData_def statPacket_def dataPacket_def mkStat_def slash_env_def
  Receive_init_def Validator_HandleChange_def Hardlinks_HandleChange_def fileCanRequestData_def
  ModeType_def IsDir_def ModeDir_def FromSlash_def ToSlash_def newStack_def path_codec_def
  metadataPath_def Let_def

lemma trimParents_Nil: "trimParents p [] = []"
  by (simp add: trimParents.simps peek_def)

lemma trimParents_snoc:
  "trimParents p (s @ [c]) = (if p = path c then s @ [c] else trimParents p s)"
  by (subst trimParents.simps) (simp add: peek_def pop_def)

text \<open>The loop that trims the stack keeps the longest prefix that ends in the parent.\<close>

lemma trimParents_eq: "trimParents p s = rev (dropWhile (\<lambda>c. p \<noteq> path c) (rev s))"
  by (induction s rule: rev_induct) (simp_all add: trimParents_Nil trimParents_snoc)

lemma replay_open:
  "closeCh r = None \<Longrightarrow> \<not> walkChanClosed r \<Longrightarrow>
   replay r cps = Inr (r\<lparr>walkChan := walkChan r @ cps\<rparr>)"
  by (induction cps arbitrary: r) (simp_all add: update_def)

lemma show_u32_small: "unat w < 10 \<Longrightarrow> show_u32 w = [digit_char (unat w)]"
  by (simp add: show_u32_def numeral_eq_Suc)

lemma ex_listed_state:
  "ex_listed =
     \<lparr>files = [''f'' \<mapsto> 0], pipes = Map.empty, sinks = [], sent = [], i_ctr = 1,
      metadataBuffer = [], metadataParents = [], orderValidator = Some ''f'', hlValidator = {''f''},
      walkChan = [\<lparr>path = ''f'', stat = mkStat ''f'' 0x1A4\<rparr>], walkChanClosed = False,
      closeCh = None\<rparr>"
  by (simp add: ex_listed_def run_defs)

lemma ex_open_state:
  "ex_open =
     \<lparr>files = Map.empty, pipes = [0 \<mapsto> 0], sinks = [newWrappedWriteCloser 7],
      sent = [\<lparr>Type = PACKET_REQ, Stat = None, ID = 0, Data = []\<rparr>], i_ctr = 1,
      metadataBuffer = [], metadataParents = [], orderValidator = Some ''f'', hlValidator = {''f''},
      walkChan = [\<lparr>path = ''f'', stat = mkStat ''f'' 0x1A4\<rparr>], walkChanClosed = False,
      closeCh = None\<rparr>"
  by (simp add: ex_open_def asyncDataFunc_def ex_listed_state)

lemma ex_closed_state:
  "ex_closed =
     \<lparr>files = Map.empty, pipes = [0 \<mapsto> 0],
      sinks = [\<lparr>WriteCloser = 7, written = [], w_err = None, w_done = True\<rparr>],
      sent = [\<lparr>Type = PACKET_REQ, Stat = None, ID = 0, Data = []\<rparr>], i_ctr = 1,
      metadataBuffer = [], metadataParents = [], orderValidator = Some ''f'', hlValidator = {''f''},
      walkChan = [\<lparr>path = ''f'', stat = mkStat ''f'' 0x1A4\<rparr>], walkChanClosed = False,
      closeCh = None\<rparr>"
  by (simp add: ex_closed_def ex_open_state dispatch_def handleData_def dataPacket_def
      slash_env_def newWrappedWriteCloser_def)

lemma ex_done_state: "ex_done = ex_closed\<lparr>pipes := Map.empty\<rparr>"
  by (simp add: ex_done_def asyncDataFunc_Wait_def ex_closed_state)

lemma ex_meta_state:
  "ex_meta =
     \<lparr>files = [''f'' \<mapsto> 0], pipes = Map.empty, sinks = [], sent = [], i_ctr = 1,
      metadataBuffer = putUint32 1 @ ''f'', metadataParents = [], orderValidator = Some ''f'',
      hlValidator = {''f''},
      walkChan = [\<lparr>path = ''f'', stat = mkStat ''f'' 0x1A4\<rparr>], walkChanClosed = False,
      closeCh = None\<rparr>"
  by (simp add: ex_meta_def run_defs accept_all_def trimParents_eq Dir_slash_def Clean_slash_def
      replay_open push_def clear_def)

subsection \<open>The loop body in closed form\<close>

lemma update_entry:
  "update r (Some cp) =
     (if walker_open r then Inr (r\<lparr>walkChan := walkChan r @ [cp]\<rparr>) else Inl (walker_error r))"
  by (simp add: update_def walker_open_def walker_error_def split: option.splits)

lemma replay_cases:
  "replay r cps =
     (if cps = [] \<or> walker_open r then Inr (r\<lparr>walkChan := walkChan r @ cps\<rparr>)
      else Inl (walker_error r, r))"
proof (cases cps)
  case Nil
  then show ?thesis by simp
next
  case (Cons c cs)
  show ?thesis
  proof (cases "walker_open r")
    case True
    then show ?thesis using replay_open [of r cps] by (simp add: walker_open_def)
  next
    case False
    then show ?thesis using Cons by (simp add: update_entry)
  qed
qed

lemma forward_cases:
  "forward r cp =
     (if walker_open r then Continue (r\<lparr>walkChan := walkChan r @ [cp]\<rparr>)
      else Return (Some (walker_error r)) r)"
  by (simp add: forward_def update_entry)

lemma walker_open_upd [simp]:
  "walker_open (r\<lparr>metadataParents := s\<rparr>) = walker_open r"
  "walker_open (r\<lparr>orderValidator := ov\<rparr>) = walker_open r"
  "walker_open (r\<lparr>hlValidator := hv\<rparr>) = walker_open r"
  "walker_open (r\<lparr>i_ctr := i\<rparr>) = walker_open r"
  "walker_open (r\<lparr>files := fs\<rparr>) = walker_open r"
  "walker_open (r\<lparr>metadataBuffer := b\<rparr>) = walker_open r"
  "walker_open (r\<lparr>walkChan := w\<rparr>) = walker_open r"
  by (simp_all add: walker_open_def)

lemma walker_error_upd [simp]:
  "walker_error (r\<lparr>metadataParents := s\<rparr>) = walker_error r"
  "walker_error (r\<lparr>orderValidator := ov\<rparr>) = walker_error r"
  "walker_error (r\<lparr>hlValidator := hv\<rparr>) = walker_error r"
  "walker_error (r\<lparr>i_ctr := i\<rparr>) = walker_error r"
  "walker_error (r\<lparr>files := fs\<rparr>) = walker_error r"
  "walker_error (r\<lparr>metadataBuffer := b\<rparr>) = walker_error r"
  "walker_error (r\<lparr>walkChan := w\<rparr>) = walker_error r"
  by (simp_all add: walker_error_def)

lemma replayParents_cases:
  "replayParents E r cp m =
     (if m then Continue (r\<lparr>metadataParents := stack_after E r cp\<rparr>)
      else if walker_open r
        then Continue (r\<lparr>metadataParents := [], walkChan := walkChan r @ stack_after E r cp @ [cp]\<rparr>)
      else Return (Some (walker_error r))
             (r\<lparr>metadataParents := stack_after E r cp\<rparr>))"
  by (simp add: replayParents_def Let_def replay_cases forward_cases push_def clear_def stack_after_def)


lemma deliver_fields:
  "files (after (deliver E r cp m)) = files r"
  "i_ctr (after (deliver E r cp m)) = i_ctr r"
  "metadataBuffer (after (deliver E r cp m)) = metadataBuffer r"
  "pipes (after (deliver E r cp m)) = pipes r"
  "sinks (after (deliver E r cp m)) = sinks r"
  "sent (after (deliver E r cp m)) = sent r"
  "walkChanClosed (after (deliver E r cp m)) = walkChanClosed r"
  "closeCh (after (deliver E r cp m)) = closeCh r"
  "orderValidator (after (deliver E r cp m)) = orderValidator r"
  "hlValidator (after (deliver E r cp m)) = hlValidator r"
  by (simp_all add: deliver_def replayParents_cases forward_cases)

lemma deliver_returns:
  "is_Return (deliver E r cp m) \<Longrightarrow> returns (deliver E r cp m) = Some (walker_error r)"
  by (auto simp: deliver_def replayParents_cases forward_cases split: if_splits)

lemma validate_cases:
  "validate E r cp m =
     (case order_HandleChange E (orderValidator r) (path cp) (stat cp) of
        Inl e \<Rightarrow> Return (Some e) r
      | Inr ov \<Rightarrow>
          (case hl_HandleChange E (hlValidator r) (path cp) (stat cp) of
             Inl e \<Rightarrow> Return (Some e) (r\<lparr>orderValidator := ov\<rparr>)
           | Inr hv \<Rightarrow> deliver E (r\<lparr>orderValidator := ov, hlValidator := hv\<rparr>) cp m))"
  by (simp add: validate_def deliver_def Let_def split: sum.splits)

lemma validate_fields:
  "files (after (validate E r cp m)) = files r"
  "i_ctr (after (validate E r cp m)) = i_ctr r"
  "metadataBuffer (after (validate E r cp m)) = metadataBuffer r"
  "pipes (after (validate E r cp m)) = pipes r"
  "sinks (after (validate E r cp m)) = sinks r"
  "sent (after (validate E r cp m)) = sent r"
  "walkChanClosed (after (validate E r cp m)) = walkChanClosed r"
  "closeCh (after (validate E r cp m)) = closeCh r"
  by (simp_all add: validate_cases deliver_fields split: sum.splits)

lemma validate_validators:
  "orderValidator (after (validate E r cp m)) =
     (case order_HandleChange E (orderValidator r) (path cp) (stat cp) of
        Inl e \<Rightarrow> orderValidator r | Inr ov \<Rightarrow> ov)"
  "hlValidator (after (validate E r cp m)) =
     (case order_HandleChange E (orderValidator r) (path cp) (stat cp) of
        Inl e \<Rightarrow> hlValidator r
      | Inr ov \<Rightarrow>
          (case hl_HandleChange E (hlValidator r) (path cp) (stat cp) of
             Inl e \<Rightarrow> hlValidator r | Inr hv \<Rightarrow> hv))"
  by (simp_all add: validate_cases deliver_fields split: sum.splits)

lemma register_unfold:
  "register E r st p m =
     validate E
       (r\<lparr>files := (if \<not> m \<and> fileCanRequestData (Mode st) then (files r)(p \<mapsto> i_ctr r) else files r),
          i_ctr := i_ctr r + 1\<rparr>)
       \<lparr>path = p, stat = st\<lparr>Path := p, Linkname := FromSlash (separator E) (Linkname st)\<rparr>\<rparr> m"
  by (simp add: register_def Let_def)

lemma handleStat_consumed:
  assumes "consumed E st"
  shows "handleStat E r st =
           register E (r\<lparr>metadataBuffer :=
                          (if metadataOnly E = None then metadataBuffer r
                           else metadataBuffer r @ putUint32 (SizeVT E st) @ snd (MarshalToSizedBufferVT E st))\<rparr>)
             st (FromSlash (separator E) (Path st)) (metaOnly_of E st)"
  using assms
  by (auto simp: handleStat_def consumed_def metaOnly_of_def Let_def split: option.splits prod.splits)

lemma handleStat_not_consumed:
  assumes "\<not> consumed E st"
  shows "files (after (handleStat E r st)) = files r"
        "i_ctr (after (handleStat E r st)) = i_ctr r"
        "walkChan (after (handleStat E r st)) = walkChan r"
  using assms
  by (auto simp: handleStat_def consumed_def Let_def split: option.splits prod.splits)

lemma counter_step:
  "i_ctr (after (handleStat E r st)) = (if consumed E st then i_ctr r + 1 else i_ctr r)"
  by (simp add: handleStat_consumed handleStat_not_consumed register_unfold validate_fields)

lemma files_step:
  "files (after (handleStat E r st)) =
     (if consumed E st \<and> fileCanRequestData (Mode st) \<and> \<not> metaOnly_of E st
      then (files r)(FromSlash (separator E) (Path st) \<mapsto> i_ctr r) else files r)"
proof (cases "consumed E st")
  case True
  then show ?thesis by (simp add: handleStat_consumed register_unfold validate_fields)
next
  case False
  then show ?thesis by (simp add: handleStat_not_consumed)
qed

lemma handleStat_sent: "sent (after (handleStat E r st)) = sent r"
proof (cases "consumed E st")
  case True
  then show ?thesis by (simp add: handleStat_consumed register_unfold validate_fields)
next
  case False
  then show ?thesis
    by (auto simp: handleStat_def consumed_def Let_def split: option.splits prod.splits)
qed

lemma handleData_fields:
  "files (after (handleData E r p)) = files r"
  "i_ctr (after (handleData E r p)) = i_ctr r"
  "sent (after (handleData E r p)) = sent r"
  by (auto simp: handleData_def Let_def split: option.splits)

lemma emptyStat_fields:
  "files (after (emptyStat r)) = files r"
  "i_ctr (after (emptyStat r)) = i_ctr r"
  "sent (after (emptyStat r)) = sent r"
  by (simp_all add: emptyStat_def update_def split: option.splits)

lemma dispatch_cases:
  "dispatch E r p =
     (case Type p of
        PACKET_ERR \<Rightarrow> Return (Some (Errorf (''error from sender: '' @ Data p))) r
      | PACKET_STAT \<Rightarrow> (case Stat p of None \<Rightarrow> emptyStat r | Some st \<Rightarrow> handleStat E r st)
      | PACKET_DATA \<Rightarrow> handleData E r p
      | PACKET_REQ \<Rightarrow> Continue r
      | PACKET_FIN \<Rightarrow> Continue r)"
  by (simp add: dispatch_def split: packet_type.splits)

lemma dispatch_sent: "sent (after (dispatch E r p)) = sent r"
  by (simp add: dispatch_cases handleStat_sent handleData_fields emptyStat_fields
      split: packet_type.splits option.splits)


lemma dispatch_files:
  "files (after (dispatch E r p)) = files r \<or>
   (\<exists>q. files (after (dispatch E r p)) = (files r)(q \<mapsto> i_ctr r) \<and>
        i_ctr (after (dispatch E r p)) = i_ctr r + 1)"
  by (auto simp: dispatch_cases counter_step files_step handleData_fields emptyStat_fields
      split: packet_type.splits option.splits)









subsection \<open>The tables while the goroutines interleave\<close>

lemma unat_succ:
  fixes i :: "32 word"
  assumes "unat i < 2 ^ 32 - 1"
  shows "unat (i + 1) = unat i + 1"
  using assms by (simp add: unat_word_ariths)

lemma word_less_succ:
  fixes i fid :: "32 word"
  assumes "unat i < 2 ^ 32 - 1"
  shows "i < i + 1" and "fid < i \<Longrightarrow> fid < i + 1"
  using unat_succ [OF assms] by (simp_all add: word_less_nat_alt)

lemma tables_ok_mono: "tables_ok k r \<Longrightarrow> tables_ok (Suc k) r"
  by (simp add: tables_ok_def)

lemma tables_ok_same:
  assumes "tables_ok k r" "files r' = files r" "i_ctr r' = i_ctr r" "sent r' = sent r"
  shows "tables_ok k r'"
  using assms by (simp add: tables_ok_def requested_def)

lemma tables_ok_count:
  assumes ok: "tables_ok k r" and k: "k < 2 ^ 32 - 1"
    and f: "files r' = files r \<or> files r' = (files r)(q \<mapsto> i_ctr r)"
    and i: "i_ctr r' = i_ctr r + 1" and s: "sent r' = sent r"
  shows "tables_ok (Suc k) r'"
proof -
  have b: "unat (i_ctr r) < 2 ^ 32 - 1"
    using ok k by (simp add: tables_ok_def)
  note lt = word_less_succ [OF b]
  have below: "fid < i_ctr r" if "files r p = Some fid" for p fid
    using ok that by (auto simp: tables_ok_def)
  have req: "fid < i_ctr r \<and> fid \<notin> ran (files r)" if "fid \<in> set (requested r)" for fid
    using ok that by (auto simp: tables_ok_def)
  have inj: "inj_on (files r) (dom (files r))"
    using ok by (simp add: tables_ok_def)
  have fresh: "i_ctr r \<notin> ran (files r)"
    using below by (auto simp: ran_def)
  have 1: "unat (i_ctr r') \<le> Suc k"
    using ok unat_succ [OF b] by (simp add: tables_ok_def i)
  have 2: "fid < i_ctr r'" if "files r' p = Some fid" for p fid
    using f that below lt by (auto simp: i split: if_splits)
  have 3: "inj_on (files r') (dom (files r'))"
  proof (cases "files r' = files r")
    case True
    then show ?thesis using inj by simp
  next
    case False
    with f have e: "files r' = (files r)(q \<mapsto> i_ctr r)" by simp
    show ?thesis
      unfolding e inj_on_def
    proof (intro ballI impI)
      fix x y
      assume x: "x \<in> dom ((files r)(q \<mapsto> i_ctr r))" and y: "y \<in> dom ((files r)(q \<mapsto> i_ctr r))"
        and eq: "((files r)(q \<mapsto> i_ctr r)) x = ((files r)(q \<mapsto> i_ctr r)) y"
      show "x = y"
      proof (cases "x = q \<or> y = q")
        case True
        then show ?thesis using eq x y fresh by (auto simp: ran_def split: if_splits)
      next
        case False
        then show ?thesis using eq x y inj by (auto simp: inj_on_def dom_def)
      qed
    qed
  qed
  have 4: "fid < i_ctr r' \<and> fid \<notin> ran (files r')" if "fid \<in> set (requested r')" for fid
  proof -
    have m: "fid \<in> set (requested r)" using that s by (simp add: requested_def)
    have "fid \<noteq> i_ctr r" using req [OF m] by auto
    moreover have "ran (files r') \<subseteq> insert (i_ctr r) (ran (files r))"
      using f by (auto simp: ran_def split: if_splits)
    ultimately show ?thesis using req [OF m] lt(2) by (auto simp: i)
  qed
  have 5: "distinct (requested r')"
    using ok s by (simp add: tables_ok_def requested_def)
  show ?thesis
    unfolding tables_ok_def using 1 2 3 4 5 by blast
qed


lemma tables_ok_asked:
  assumes ok: "tables_ok k r"
  shows "tables_ok k (snd (asyncDataFunc r p wc sendErr))"
proof (cases "files r p")
  case None
  then show ?thesis using ok by (simp add: asyncDataFunc_def)
next
  case (Some fid)
  let ?r' = "snd (asyncDataFunc r p wc sendErr)"
  have f: "files ?r' = (files r)(p := None)" and i: "i_ctr ?r' = i_ctr r"
    and s: "requested ?r' = requested r \<or> requested ?r' = requested r @ [fid]"
    using Some by (cases sendErr; simp add: asyncDataFunc_def Let_def requested_def)+
  have below: "g < i_ctr r" if "files r q = Some g" for q g
    using ok that by (auto simp: tables_ok_def)
  have req: "g < i_ctr r \<and> g \<notin> ran (files r)" if "g \<in> set (requested r)" for g
    using ok that by (auto simp: tables_ok_def)
  have inj: "inj_on (files r) (dom (files r))"
    using ok by (simp add: tables_ok_def)
  have gone: "fid \<notin> ran ((files r)(p := None))"
  proof
    assume "fid \<in> ran ((files r)(p := None))"
    then obtain q where "((files r)(p := None)) q = Some fid" by (auto simp: ran_def)
    then have "q \<noteq> p" "files r q = Some fid" by (auto split: if_splits)
    with Some inj have "q = p" by (auto simp: inj_on_def dom_def)
    with \<open>q \<noteq> p\<close> show False by simp
  qed
  have sub: "ran ((files r)(p := None)) \<subseteq> ran (files r)"
    by (auto simp: ran_def split: if_splits)
  have new: "fid \<notin> set (requested r)"
    using req Some by (auto simp: ran_def)
  have 1: "unat (i_ctr ?r') \<le> k"
    using ok by (simp add: tables_ok_def i)
  have 2: "g < i_ctr ?r'" if "files ?r' q = Some g" for q g
    using that below by (auto simp: f i split: if_splits)
  have 3: "inj_on (files ?r') (dom (files ?r'))"
    unfolding f using inj by (auto simp: inj_on_def dom_def split: if_splits)
  have 4: "g < i_ctr ?r' \<and> g \<notin> ran (files ?r')" if "g \<in> set (requested ?r')" for g
  proof (cases "g \<in> set (requested r)")
    case True
    then show ?thesis using req [OF True] sub by (auto simp: f i)
  next
    case False
    with that s have "g = fid" by auto
    then show ?thesis using below [OF Some] gone by (simp add: f i)
  qed
  have 5: "distinct (requested ?r')"
    using s ok new by (auto simp: tables_ok_def)
  show ?thesis
    unfolding tables_ok_def using 1 2 3 4 5 by blast
qed

lemma tables_ok_woken:
  assumes "tables_ok k r" "asyncDataFunc_Wait r fid wwc w = Some (err, r')"
  shows "tables_ok k r'"
proof -
  have "files r' = files r \<and> i_ctr r' = i_ctr r \<and> sent r' = sent r"
    using assms(2)
    by (auto simp: asyncDataFunc_Wait_def split: wake.splits if_splits option.splits)
  with assms(1) show ?thesis by (simp add: tables_ok_same)
qed

lemma tables_ok_dispatch:
  assumes ok: "tables_ok k r" and k: "k < 2 ^ 32 - 1"
  shows "tables_ok (Suc k) (after (dispatch E r p))"
proof -
  let ?r' = "after (dispatch E r p)"
  have s: "sent ?r' = sent r" by (rule dispatch_sent)
  have n: "i_ctr ?r' = i_ctr r \<or> i_ctr ?r' = i_ctr r + 1"
  proof (cases "Type p")
    case PACKET_STAT
    show ?thesis
    proof (cases "Stat p")
      case None
      with PACKET_STAT show ?thesis by (simp add: dispatch_cases emptyStat_fields)
    next
      case (Some st)
      with PACKET_STAT show ?thesis by (cases "consumed E st") (simp_all add: dispatch_cases counter_step)
    qed
  qed (simp_all add: dispatch_cases handleData_fields)
  consider (same) "files ?r' = files r" "i_ctr ?r' = i_ctr r"
    | (count) q where "files ?r' = files r \<or> files ?r' = (files r)(q \<mapsto> i_ctr r)" "i_ctr ?r' = i_ctr r + 1"
    using dispatch_files [of E r p] n by blast
  then show ?thesis
  proof cases
    case same
    then show ?thesis using tables_ok_same [OF ok _ _ s] tables_ok_mono by blast
  next
    case count
    then show ?thesis using tables_ok_count [OF ok k _ _ s] by blast
  qed
qed

lemma tables_ok_step:
  assumes ok: "tables_ok k r" and k: "k < 2 ^ 32 - 1"
  shows "tables_ok (Suc k) (snd (step E (ph, r) ev))"
proof (cases ev)
  case (Delivered d)
  show ?thesis
  proof (cases ph)
    case Dispatching
    show ?thesis
    proof (cases d)
      case (RecvOk p)
      have "snd (step E (Dispatching, r) (Delivered (RecvOk p))) = r \<or>
            snd (step E (Dispatching, r) (Delivered (RecvOk p))) = after (dispatch E r p)"
        by (cases "dispatch E r p") simp_all
      then show ?thesis
        using tables_ok_dispatch [OF ok k, of E p] tables_ok_mono [OF ok]
        unfolding Delivered Dispatching RecvOk by auto
    next
      case (RecvErr e)
      then show ?thesis using Delivered Dispatching tables_ok_mono [OF ok] by simp
    qed
  next
    case Draining
    then show ?thesis using Delivered tables_ok_mono [OF ok] by (cases d) simp_all
  next
    case (Ended err)
    then show ?thesis using Delivered tables_ok_mono [OF ok] by simp
  qed
next
  case (Asked p wc sendErr)
  then show ?thesis using tables_ok_asked [OF ok, of p wc sendErr] tables_ok_mono by simp
next
  case (Woken fid wwc w)
  show ?thesis
  proof (cases "asyncDataFunc_Wait r fid wwc w")
    case None
    then show ?thesis using Woken tables_ok_mono [OF ok] by simp
  next
    case (Some a)
    then obtain err r' where "asyncDataFunc_Wait r fid wwc w = Some (err, r')" by (cases a) simp
    then have "tables_ok k r'" by (rule tables_ok_woken [OF ok])
    then have "tables_ok (Suc k) r'" by (rule tables_ok_mono)
    then show ?thesis using Woken \<open>asyncDataFunc_Wait r fid wwc w = Some (err, r')\<close> by simp
  qed
qed

lemma tables_ok_init: "tables_ok 0 (Receive_init ov hv)"
  by (simp add: tables_ok_def Receive_init_def requested_def)

lemma tables_ok_execute:
  "length evs < 2 ^ 32 \<Longrightarrow> tables_ok (length evs) (snd (execute E (Receive_init ov hv) evs))"
proof (induction evs rule: rev_induct)
  case Nil
  then show ?case by (simp add: execute_def tables_ok_init)
next
  case (snoc ev evs)
  then have ok: "tables_ok (length evs) (snd (execute E (Receive_init ov hv) evs))"
    and k: "length evs < 2 ^ 32 - 1"
    by simp_all
  obtain ph r where e: "execute E (Receive_init ov hv) evs = (ph, r)"
    by (cases "execute E (Receive_init ov hv) evs")
  have "execute E (Receive_init ov hv) (evs @ [ev]) = step E (ph, r) ev"
    using e by (simp add: execute_def)
  then show ?case
    using tables_ok_step [OF ok k, of E ph ev] e by simp
qed

lemma requests_distinct:
  "length evs < 2 ^ 32 \<Longrightarrow> distinct (requested (snd (execute E (Receive_init ov hv) evs)))"
  using tables_ok_execute [of evs E ov hv] by (simp add: tables_ok_def)


subsection \<open>Replaying the buffered ancestors\<close>

text \<open>
  What lines 270--297 do with an entry that the filter accepted and both validators let
  through, while the walker is open: the stack is trimmed back to the entry's parent, the
  entry is pushed if it is a directory, everything then on the stack is forwarded in push
  order, the stack is cleared, and the entry is forwarded.
\<close>

lemma replayParents_accepted:
  assumes "closeCh r = None" "\<not> walkChanClosed r"
  shows "replayParents E r cp False =
           Continue (r\<lparr>metadataParents := [],
                      walkChan := walkChan r @ trimParents (Dir E (path cp)) (metadataParents r) @
                                  (if IsDir (Mode (stat cp)) then [cp] else []) @ [cp]\<rparr>)"
  using assms
  by (simp add: replayParents_def Let_def replay_open push_def clear_def forward_def update_def)

text \<open>The scenario of the specification: the directories \<open>dir\<close> and \<open>dir/sub\<close> and the file
  \<open>dir/sub/match\<close>, with a filter that accepts only the file. The consumer is fed \<open>dir\<close>,
  \<open>dir/sub\<close>, \<open>dir/sub/match\<close>, in that order.\<close>

lemma ancestor_replay_scenario:
  "map path (walkChan (final (run (slash_env (Some accept_match) path_codec) (Receive_init None {})
       [RecvOk (statPacket (mkStat ''dir'' 0x800001ED)),
        RecvOk (statPacket (mkStat ''dir/sub'' 0x800001ED)),
        RecvOk (statPacket (mkStat ''dir/sub/match'' 0x1A4))]))) =
     [''dir'', ''dir/sub'', ''dir/sub/match'']"
  by (simp add: run_defs accept_match_def trimParents_eq Dir_slash_def Clean_slash_def replay_open
      push_def clear_def)

text \<open>
  C1 fails on the code where the accepted entry is itself a directory. The directory is
  pushed onto the stack (line 281) before the stack is replayed (lines 286--290), so the replay
  forwards it, and line 295 forwards it again: with a filter that accepts everything, the
  single Stat packet of the directory \<open>dir\<close> puts \<open>dir\<close> into the consumer's feed twice.
\<close>

theorem C1_accepted_directory_forwarded_twice:
  "map path (walkChan (final (run (slash_env (Some accept_all) path_codec) (Receive_init None {})
       [RecvOk (statPacket (mkStat ''dir'' 0x800001ED))]))) = [''dir'', ''dir'']"
  by (simp add: run_defs accept_all_def trimParents_eq Dir_slash_def Clean_slash_def replay_open
      push_def clear_def)

subsection \<open>Validation before forwarding\<close>

lemma sep_with_filter [simp]:
  "separator (with_filter E f) = separator E"
  "Dir (with_filter E f) = Dir E"
  "metadataOnly (with_filter E f) = Some f"
  "SizeVT (with_filter E f) = SizeVT E"
  "MarshalToSizedBufferVT (with_filter E f) = MarshalToSizedBufferVT E"
  "order_HandleChange (with_filter E f) = order_HandleChange E"
  "hl_HandleChange (with_filter E f) = hl_HandleChange E"
  by (simp_all add: with_filter_def)

lemma statPacket_dispatch:
  "run E r (RecvOk (statPacket st) # rest) =
     (case handleStat E r st of Continue r' \<Rightarrow> run E r' rest | Return err r' \<Rightarrow> Returned err r')"
  by (simp add: dispatch_def statPacket_def)

lemma handleStat_validate:
  assumes "consumed E st"
  shows "\<exists>r1. handleStat E r st =
            validate E r1 \<lparr>path = FromSlash (separator E) (Path st), stat = native E st\<rparr> (metaOnly_of E st) \<and>
          orderValidator r1 = orderValidator r \<and> hlValidator r1 = hlValidator r \<and>
          walkChan r1 = walkChan r \<and> walker_open r1 = walker_open r \<and> walker_error r1 = walker_error r"
  unfolding handleStat_consumed [OF assms] register_unfold native_def
  by (rule exI, rule conjI, rule refl) simp

text \<open>
  C2, as the code has it. Let \<open>st\<close> be a Stat record the loop consumes: its path survives
  the conversion and, with a metadata-only filter, it is not the reserved name (which is
  skipped before any validator sees it) and the codec copied it without error. Then:
  \<^item> the ordering validator is asked first: if it rejects with \<open>e\<close>, the loop returns \<open>e\<close>,
    whatever the hardlink validator would say, and nothing was forwarded;
  \<^item> the hardlink validator is asked next: if it rejects with \<open>e\<close>, the loop returns \<open>e\<close> and
    nothing was forwarded;
  \<^item> if the packet added anything to the consumer's feed, both validators accepted the
    record;
  \<^item> with the ordering validator of the specification, a record whose path is not strictly
    greater than the last path that validator saw ends the loop with its rejection, and
    nothing was forwarded.
\<close>

theorem C2_validators_run_before_forwarding:
  assumes "consumed E st"
  shows
  "(order_HandleChange E (orderValidator r) (FromSlash (separator E) (Path st)) (native E st) = Inl e \<longrightarrow>
      run E r (RecvOk (statPacket st) # rest) = Returned (Some e) (after (handleStat E r st)) \<and>
      walkChan (after (handleStat E r st)) = walkChan r) \<and>
   (order_HandleChange E (orderValidator r) (FromSlash (separator E) (Path st)) (native E st) = Inr ov \<and>
    hl_HandleChange E (hlValidator r) (FromSlash (separator E) (Path st)) (native E st) = Inl e \<longrightarrow>
      run E r (RecvOk (statPacket st) # rest) = Returned (Some e) (after (handleStat E r st)) \<and>
      walkChan (after (handleStat E r st)) = walkChan r) \<and>
   (walkChan (after (handleStat E r st)) \<noteq> walkChan r \<longrightarrow>
      \<not> isl (order_HandleChange E (orderValidator r) (FromSlash (separator E) (Path st)) (native E st)) \<and>
      \<not> isl (hl_HandleChange E (hlValidator r) (FromSlash (separator E) (Path st)) (native E st))) \<and>
   (order_HandleChange E = Validator_HandleChange \<and> orderValidator r = Some q \<and>
    \<not> str_less q (FromSlash (separator E) (Path st)) \<longrightarrow>
      run E r (RecvOk (statPacket st) # rest) =
        Returned (Some (External ''changes out of order'')) (after (handleStat E r st)) \<and>
      walkChan (after (handleStat E r st)) = walkChan r)"
proof -
  obtain r1 where h: "handleStat E r st =
            validate E r1 \<lparr>path = FromSlash (separator E) (Path st), stat = native E st\<rparr> (metaOnly_of E st)"
    and v: "orderValidator r1 = orderValidator r" "hlValidator r1 = hlValidator r"
      "walkChan r1 = walkChan r"
    using handleStat_validate [OF assms] by blast
  have ord: "run E r (RecvOk (statPacket st) # rest) = Returned (Some x) (after (handleStat E r st)) \<and>
      walkChan (after (handleStat E r st)) = walkChan r"
    if "order_HandleChange E (orderValidator r) (FromSlash (separator E) (Path st)) (native E st) = Inl x"
    for x
    using that v unfolding statPacket_dispatch h validate_cases by simp
  have hl: "run E r (RecvOk (statPacket st) # rest) = Returned (Some e) (after (handleStat E r st)) \<and>
      walkChan (after (handleStat E r st)) = walkChan r"
    if "order_HandleChange E (orderValidator r) (FromSlash (separator E) (Path st)) (native E st) = Inr ov"
       "hl_HandleChange E (hlValidator r) (FromSlash (separator E) (Path st)) (native E st) = Inl e"
    using that v unfolding statPacket_dispatch h validate_cases by simp
  have fw: "\<not> isl (order_HandleChange E (orderValidator r) (FromSlash (separator E) (Path st)) (native E st)) \<and>
      \<not> isl (hl_HandleChange E (hlValidator r) (FromSlash (separator E) (Path st)) (native E st))"
    if "walkChan (after (handleStat E r st)) \<noteq> walkChan r"
    using that v unfolding h validate_cases by (auto split: sum.splits)
  have sp: "order_HandleChange E (orderValidator r) (FromSlash (separator E) (Path st)) (native E st) =
      Inl (External ''changes out of order'')"
    if "order_HandleChange E = Validator_HandleChange" "orderValidator r = Some q"
      "\<not> str_less q (FromSlash (separator E) (Path st))"
    using that by (simp add: Validator_HandleChange_def)
  show ?thesis
    using ord hl fw sp by blast
qed


theorem C2_witness:
  "consumed (slash_env None path_codec) (mkStat ''a'' 0x1A4) \<and>
   orderValidator ex_listed = Some ''f'' \<and> \<not> str_less ''f'' ''a'' \<and>
   run (slash_env None path_codec) ex_listed [RecvOk (statPacket (mkStat ''a'' 0x1A4))] =
     Returned (Some (External ''changes out of order''))
       (after (handleStat (slash_env None path_codec) ex_listed (mkStat ''a'' 0x1A4))) \<and>
   map path (walkChan (after (handleStat (slash_env None path_codec) ex_listed (mkStat ''a'' 0x1A4)))) =
     [''f'']"
proof -
  let ?E = "slash_env None path_codec"
  have c: "consumed ?E (mkStat ''a'' 0x1A4)"
    by (simp add: consumed_def slash_env_def mkStat_def FromSlash_def ToSlash_def)
  have h: "order_HandleChange ?E = Validator_HandleChange" "orderValidator ex_listed = Some ''f''"
    "\<not> str_less ''f'' (FromSlash (separator ?E) (Path (mkStat ''a'' 0x1A4)))"
    "\<not> str_less ''f'' ''a''" "map path (walkChan ex_listed) = [''f'']"
    by (simp_all add: slash_env_def ex_listed_state mkStat_def FromSlash_def)
  note T = C2_validators_run_before_forwarding [OF c, where r = ex_listed and q = "''f''" and rest = "[]", THEN conjunct2, THEN conjunct2,
               THEN conjunct2]
  have "run ?E ex_listed [RecvOk (statPacket (mkStat ''a'' 0x1A4))] =
          Returned (Some (External ''changes out of order''))
            (after (handleStat ?E ex_listed (mkStat ''a'' 0x1A4))) \<and>
        walkChan (after (handleStat ?E ex_listed (mkStat ''a'' 0x1A4))) = walkChan ex_listed"
    using T h(1-3) by blast
  with c h show ?thesis by simp
qed

text \<open>With a metadata-only filter, the Stat packet of the reserved name \<^verbatim>\<open>.fsutil-metadata\<close>
  that follows the one of \<open>b\<close> is not rejected, although its path is not greater than \<open>b\<close>:
  the loop skips it and waits for the next packet.\<close>

theorem C2_counterexample:
  "is_Waiting (run (slash_env (Some accept_all) path_codec) (Receive_init None {})
       [RecvOk (statPacket (mkStat ''b'' 0x1A4)),
        RecvOk (statPacket (mkStat ''.fsutil-metadata'' 0x1A4))]) \<and>
   \<not> str_less ''b'' ''.fsutil-metadata'' \<and>
   map path (walkChan (final (run (slash_env (Some accept_all) path_codec) (Receive_init None {})
       [RecvOk (statPacket (mkStat ''b'' 0x1A4)),
        RecvOk (statPacket (mkStat ''.fsutil-metadata'' 0x1A4))]))) = [''b'']"
  by (simp add: run_defs accept_all_def trimParents_eq Dir_slash_def Clean_slash_def replay_open
      push_def clear_def)

subsection \<open>File identifiers\<close>






subsection \<open>The content-pull callback\<close>

text \<open>
  C4. For every path \<open>p\<close>:
  \<^item> if \<open>p\<close> is not in the pending table, the callback returns the error
    \<^verbatim>\<open>invalid file request p\<close> and leaves the state as it was, the packets sent included;
  \<^item> if \<open>p\<close> is pending under the identifier \<open>fid\<close>, the entry of \<open>p\<close> is removed, a fresh
    wrapped sink is entered into the sink table under \<open>fid\<close>, and then the Request for
    \<open>fid\<close> is sent: the entry is gone also when that \<^verbatim>\<open>SendMsg\<close> fails with \<open>e\<close>. A second
    call for \<open>p\<close> in the state the first one left returns the error and changes nothing.
    Where no two pending paths share an identifier, no pending path holds \<open>fid\<close> any more,
    so no later call can request it again;
  \<^item> when the callback wakes up on a sink that was closed without error, it removes the
    identifier's entry from the sink table and returns \<^verbatim>\<open>nil\<close>;
  \<^item> in every execution of fewer than \<open>2 ^ 32\<close> events from the initial state (packets
    delivered to the dispatch loop, calls of the callback and wake-ups, interleaved in any
    order) the Request packets sent carry pairwise distinct identifiers.
\<close>

theorem C4_asyncDataFunc_requests_once:
  "(files r p = None \<longrightarrow>
      asyncDataFunc r p wc sendErr = (Inl (Errorf (''invalid file request '' @ p)), r)) \<and>
   (files r p = Some fid \<longrightarrow>
      files (snd (asyncDataFunc r p wc sendErr)) = (files r)(p := None) \<and>
      pipes (snd (asyncDataFunc r p wc sendErr)) = (pipes r)(fid \<mapsto> length (sinks r)) \<and>
      sinks (snd (asyncDataFunc r p wc sendErr)) = sinks r @ [newWrappedWriteCloser wc] \<and>
      (sendErr = None \<longrightarrow>
         fst (asyncDataFunc r p wc sendErr) = Inr (fid, length (sinks r)) \<and>
         sent (snd (asyncDataFunc r p wc sendErr)) =
           sent r @ [\<lparr>Type = PACKET_REQ, Stat = None, ID = fid, Data = []\<rparr>]) \<and>
      (sendErr = Some e \<longrightarrow>
         fst (asyncDataFunc r p wc sendErr) = Inl e \<and>
         sent (snd (asyncDataFunc r p wc sendErr)) = sent r) \<and>
      asyncDataFunc (snd (asyncDataFunc r p wc sendErr)) p wc' sendErr' =
        (Inl (Errorf (''invalid file request '' @ p)), snd (asyncDataFunc r p wc sendErr)) \<and>
      (inj_on (files r) (dom (files r)) \<longrightarrow>
         fid \<notin> ran (files (snd (asyncDataFunc r p wc sendErr))))) \<and>
   (wwc < length (sinks r) \<and> w_done (sinks r ! wwc) \<and> w_err (sinks r ! wwc) = None \<longrightarrow>
      asyncDataFunc_Wait r fid' wwc Closed = Some (None, r\<lparr>pipes := (pipes r)(fid' := None)\<rparr>) \<and>
      pipes (r\<lparr>pipes := (pipes r)(fid' := None)\<rparr>) fid' = None) \<and>
   (length evs < 2 ^ 32 \<longrightarrow> distinct (requested (snd (execute E (Receive_init ov hv) evs))))"
proof -
  have absent: "files r p = None \<Longrightarrow>
      asyncDataFunc r p wc sendErr = (Inl (Errorf (''invalid file request '' @ p)), r)"
    by (simp add: asyncDataFunc_def)
  have once: "fid \<notin> ran ((files r)(p := None))"
    if "files r p = Some fid" "inj_on (files r) (dom (files r))"
  proof
    assume "fid \<in> ran ((files r)(p := None))"
    then obtain q where q: "((files r)(p := None)) q = Some fid" by (auto simp: ran_def)
    then have "q \<noteq> p" "files r q = Some fid" by (auto split: if_splits)
    with that have "q = p" by (auto simp: inj_on_def dom_def)
    with \<open>q \<noteq> p\<close> show False by simp
  qed
  have "(files r p = Some fid \<longrightarrow>
      files (snd (asyncDataFunc r p wc sendErr)) = (files r)(p := None) \<and>
      pipes (snd (asyncDataFunc r p wc sendErr)) = (pipes r)(fid \<mapsto> length (sinks r)) \<and>
      sinks (snd (asyncDataFunc r p wc sendErr)) = sinks r @ [newWrappedWriteCloser wc] \<and>
      (sendErr = None \<longrightarrow>
         fst (asyncDataFunc r p wc sendErr) = Inr (fid, length (sinks r)) \<and>
         sent (snd (asyncDataFunc r p wc sendErr)) =
           sent r @ [\<lparr>Type = PACKET_REQ, Stat = None, ID = fid, Data = []\<rparr>]) \<and>
      (sendErr = Some e \<longrightarrow>
         fst (asyncDataFunc r p wc sendErr) = Inl e \<and>
         sent (snd (asyncDataFunc r p wc sendErr)) = sent r) \<and>
      asyncDataFunc (snd (asyncDataFunc r p wc sendErr)) p wc' sendErr' =
        (Inl (Errorf (''invalid file request '' @ p)), snd (asyncDataFunc r p wc sendErr)) \<and>
      (inj_on (files r) (dom (files r)) \<longrightarrow>
         fid \<notin> ran (files (snd (asyncDataFunc r p wc sendErr))))) \<and>
   (wwc < length (sinks r) \<and> w_done (sinks r ! wwc) \<and> w_err (sinks r ! wwc) = None \<longrightarrow>
      asyncDataFunc_Wait r fid' wwc Closed = Some (None, r\<lparr>pipes := (pipes r)(fid' := None)\<rparr>) \<and>
      pipes (r\<lparr>pipes := (pipes r)(fid' := None)\<rparr>) fid' = None)"
    using once
    by (cases sendErr) (auto simp: asyncDataFunc_def asyncDataFunc_Wait_def Let_def)
  then show ?thesis
    using absent requests_distinct [of evs E ov hv] by blast
qed

theorem C4_witness:
  "files ex_listed ''f'' = Some 0 \<and>
   asyncDataFunc ex_listed ''f'' 7 None = (Inr (0, 0), ex_open) \<and>
   sent ex_open = [\<lparr>Type = PACKET_REQ, Stat = None, ID = 0, Data = []\<rparr>] \<and>
   asyncDataFunc ex_open ''f'' 8 None = (Inl (Errorf ''invalid file request f''), ex_open) \<and>
   files ex_listed ''g'' = None \<and>
   asyncDataFunc ex_listed ''g'' 7 None = (Inl (Errorf ''invalid file request g''), ex_listed) \<and>
   asyncDataFunc_Wait ex_closed 0 0 Closed = Some (None, ex_done) \<and>
   pipes ex_done 0 = None"
proof -
  have f: "files ex_listed ''f'' = Some 0" and g: "files ex_listed ''g'' = None"
    and e: "sinks ex_listed = []" "sent ex_listed = []"
    by (simp_all add: ex_listed_state)
  have c: "0 < length (sinks ex_closed) \<and> w_done (sinks ex_closed ! 0) \<and>
           w_err (sinks ex_closed ! 0) = None"
    by (simp add: ex_closed_state)
  have 1: "asyncDataFunc ex_listed ''f'' 7 None = (Inr (0, 0), ex_open) \<and>
           sent ex_open = [\<lparr>Type = PACKET_REQ, Stat = None, ID = 0, Data = []\<rparr>] \<and>
           asyncDataFunc ex_open ''f'' 8 None = (Inl (Errorf ''invalid file request f''), ex_open)"
    using f e C4_asyncDataFunc_requests_once
                [where r = ex_listed and p = "''f''" and fid = 0 and wc = 7 and sendErr = None
                   and wc' = 8 and sendErr' = None and evs = "[]"
                   and E = "slash_env None path_codec" and ov = None and hv = "{}"]
    by (simp add: ex_open_def prod_eq_iff)
  have 2: "asyncDataFunc ex_listed ''g'' 7 None = (Inl (Errorf ''invalid file request g''), ex_listed)"
    using g C4_asyncDataFunc_requests_once
              [where r = ex_listed and p = "''g''" and wc = 7 and sendErr = None and evs = "[]"
                 and E = "slash_env None path_codec" and ov = None and hv = "{}"]
    by simp
  have 3: "asyncDataFunc_Wait ex_closed 0 0 Closed =
             Some (None, ex_closed\<lparr>pipes := (pipes ex_closed)(0 := None)\<rparr>)"
    using c C4_asyncDataFunc_requests_once
              [where r = ex_closed and wwc = 0 and fid' = 0 and evs = "[]"
                 and E = "slash_env None path_codec" and ov = None and hv = "{}"]
    by simp
  have 4: "ex_done = ex_closed\<lparr>pipes := (pipes ex_closed)(0 := None)\<rparr>"
    by (simp add: ex_done_def 3)
  have 5: "asyncDataFunc_Wait ex_closed 0 0 Closed = Some (None, ex_done)"
    by (simp add: 3 4)
  have 6: "pipes ex_done 0 = None"
    by (simp add: 4)
  show ?thesis
    using f g 1 2 5 6 by simp
qed

subsection \<open>Data packets\<close>

text \<open>
  C5, as the code has it. For a Data packet \<open>p\<close>:
  \<^item> when no sink is registered under its identifier, the loop returns the error
    \<^verbatim>\<open>invalid file request\<close> followed by the identifier, with the state untouched;
  \<^item> a non-empty chunk is written through to the sink registered under the identifier; a
    failure \<open>x\<close> of that write is returned;
  \<^item> an empty chunk closes that sink: the result of the close is stored in the wrapped
    sink, its \<^verbatim>\<open>done\<close> channel is closed, and a failure \<open>x\<close> of the close is returned.

  The dispatch loop does not remove the identifier from the sink table. That is done by the
  content-pull callback when it wakes up on the close; from then on any Data packet \<open>q\<close>
  for the same identifier is answered with the error \<^verbatim>\<open>invalid file request\<close>.
\<close>

theorem C5_data_packet_routing:
  assumes "Type p = PACKET_DATA"
  shows
  "(pipes r (ID p) = None \<longrightarrow>
      dispatch E r p = Return (Some (Errorf (''invalid file request '' @ show_u32 (ID p)))) r) \<and>
   (pipes r (ID p) = Some a \<and> a < length (sinks r) \<and> Data p \<noteq> [] \<longrightarrow>
      (sink_Write E (WriteCloser (sinks r ! a)) (written (sinks r ! a)) (Data p) = None \<longrightarrow>
         dispatch E r p =
           Continue (r\<lparr>sinks := (sinks r)[a := (sinks r ! a)\<lparr>written := written (sinks r ! a) @ Data p\<rparr>]\<rparr>)) \<and>
      (sink_Write E (WriteCloser (sinks r ! a)) (written (sinks r ! a)) (Data p) = Some x \<longrightarrow>
         dispatch E r p = Return (Some x) r)) \<and>
   (pipes r (ID p) = Some a \<and> a < length (sinks r) \<and> Data p = [] \<longrightarrow>
      (let e = sink_Close E (WriteCloser (sinks r ! a)) (written (sinks r ! a));
           r1 = r\<lparr>sinks := (sinks r)[a := (sinks r ! a)\<lparr>w_err := e, w_done := True\<rparr>]\<rparr>;
           r2 = r1\<lparr>pipes := (pipes r1)(ID p := None)\<rparr>
       in (e = Some x \<longrightarrow> dispatch E r p = Return (Some x) r1) \<and>
          (e = None \<longrightarrow>
             dispatch E r p = Continue r1 \<and>
             asyncDataFunc_Wait r1 (ID p) a Closed = Some (None, r2) \<and>
             (Type q = PACKET_DATA \<and> ID q = ID p \<longrightarrow>
                dispatch E r2 q =
                  Return (Some (Errorf (''invalid file request '' @ show_u32 (ID p)))) r2))))"
  using assms by (auto simp: dispatch_def handleData_def asyncDataFunc_Wait_def Let_def)

theorem C5_witness:
  "Type (dataPacket 0 []) = PACKET_DATA \<and> pipes ex_open 0 = Some 0 \<and>
   dispatch (slash_env None path_codec) ex_open (dataPacket 0 []) = Continue ex_closed \<and>
   asyncDataFunc_Wait ex_closed 0 0 Closed = Some (None, ex_done) \<and>
   dispatch (slash_env None path_codec) ex_done (dataPacket 0 ''xyz'') =
     Return (Some (Errorf ''invalid file request 0'')) ex_done"
proof -
  let ?E = "slash_env None path_codec"
  have t: "Type (dataPacket 0 []) = PACKET_DATA" "ID (dataPacket 0 []) = 0"
    "Data (dataPacket 0 []) = []" "Type (dataPacket 0 ''xyz'') = PACKET_DATA"
    "ID (dataPacket 0 ''xyz'') = 0"
    by (simp_all add: dataPacket_def)
  have o: "pipes ex_open 0 = Some 0" "0 < length (sinks ex_open)"
    "sink_Close ?E (WriteCloser (sinks ex_open ! 0)) (written (sinks ex_open ! 0)) = None"
    by (simp_all add: ex_open_state slash_env_def)
  have c: "ex_closed = ex_open\<lparr>sinks := (sinks ex_open)[0 := (sinks ex_open ! 0)\<lparr>w_err := None, w_done := True\<rparr>]\<rparr>"
    by (simp add: ex_closed_state ex_open_state newWrappedWriteCloser_def)
  have d: "ex_done = ex_closed\<lparr>pipes := (pipes ex_closed)(0 := None)\<rparr>"
    by (simp add: ex_done_state ex_closed_state)
  have s: "show_u32 0 = ''0''"
    by (simp add: show_u32_small digit_char_def)
  from C5_data_packet_routing
         [where p = "dataPacket 0 []" and r = ex_open and E = ?E and a = 0
            and q = "dataPacket 0 ''xyz''", OF t(1)]
  have "dispatch ?E ex_open (dataPacket 0 []) = Continue ex_closed \<and>
        asyncDataFunc_Wait ex_closed 0 0 Closed = Some (None, ex_done) \<and>
        dispatch ?E ex_done (dataPacket 0 ''xyz'') =
          Return (Some (Errorf ''invalid file request 0'')) ex_done"
    unfolding t Let_def o c [symmetric] d [symmetric] s using o(2) by simp
  with t o show ?thesis by simp
qed

text \<open>The receiver with the sink of identifier 0 open is sent the empty chunk for 0 and
  then the chunk \<open>xyz\<close> for 0, before the callback has woken up: the loop returns no error,
  it is waiting for the next packet, and \<open>xyz\<close> was written to the sink just closed.\<close>

theorem C5_counterexample:
  "is_Waiting (run (slash_env None path_codec) ex_open
                 [RecvOk (dataPacket 0 []), RecvOk (dataPacket 0 ''xyz'')]) \<and>
   w_done (sinks (final (run (slash_env None path_codec) ex_open
                 [RecvOk (dataPacket 0 []), RecvOk (dataPacket 0 ''xyz'')])) ! 0) \<and>
   written (sinks (final (run (slash_env None path_codec) ex_open
                 [RecvOk (dataPacket 0 []), RecvOk (dataPacket 0 ''xyz'')])) ! 0) = ''xyz''"
  by (simp add: ex_open_state newWrappedWriteCloser_def run_defs)

subsection \<open>Paths that do not survive the conversion\<close>

lemma roundtrip_fails_iff:
  "ToSlash sep (FromSlash sep p) \<noteq> p \<longleftrightarrow> sep \<noteq> CHR ''/'' \<and> sep \<in> set p"
  by (induction p) (auto simp: ToSlash_def FromSlash_def)

text \<open>
  C6. A non-empty Stat packet whose wire path is not reproduced by converting it to the
  native form and back makes the receiver return an \<^verbatim>\<open>os.PathError\<close> that carries the wire
  path, the operation \<^verbatim>\<open>unrepresentable path\<close> and \<^verbatim>\<open>EINVAL\<close>. The state is the one before
  the packet: nothing was buffered, no identifier was assigned, no validator ran, nothing
  was forwarded. The loop ends there, whatever the stream holds next.
\<close>

theorem C6_unrepresentable_path_aborts:
  assumes "ToSlash (separator E) (FromSlash (separator E) (Path st)) \<noteq> Path st"
  shows "handleStat E r st = Return (Some (PathError ''unrepresentable path'' (Path st) EINVAL)) r \<and>
         run E r (RecvOk (statPacket st) # rest) =
           Returned (Some (PathError ''unrepresentable path'' (Path st) EINVAL)) r"
  using assms by (simp add: handleStat_def dispatch_def statPacket_def)

theorem C6_witness:
  "ToSlash (CHR 0x5C) (FromSlash (CHR 0x5C) (''foo/bar'' @ [CHR 0x5C] @ ''baz'')) \<noteq> ''foo/bar'' @ [CHR 0x5C] @ ''baz'' \<and>
   run ((slash_env None path_codec)\<lparr>separator := CHR 0x5C\<rparr>) (Receive_init None {})
       [RecvOk (statPacket (mkStat (''foo/bar'' @ [CHR 0x5C] @ ''baz'') 0x1A4))] =
     Returned (Some (PathError ''unrepresentable path'' (''foo/bar'' @ [CHR 0x5C] @ ''baz'') EINVAL))
       (Receive_init None {})"
  using C6_unrepresentable_path_aborts
    [where E = "(slash_env None path_codec)\<lparr>separator := CHR 0x5C\<rparr>"
       and st = "mkStat (''foo/bar'' @ [CHR 0x5C] @ ''baz'') 0x1A4" and r = "Receive_init None {}"
       and rest = "[]"]
  by (simp add: slash_env_def mkStat_def ToSlash_def FromSlash_def)

subsection \<open>Error packets\<close>

text \<open>
  C7, as the code has it. An Error packet makes the dispatch loop return at once, with the
  state untouched and whatever follows on the stream unread. The error it returns is built
  by \<^verbatim>\<open>errors.Errorf("error from sender: %s", p.Data)\<close>: its text is the carried message
  behind the prefix \<^verbatim>\<open>error from sender: \<close>, not the carried message alone.
\<close>

theorem C7_error_packet_aborts_with_prefixed_message:
  assumes "Type p = PACKET_ERR"
  shows "run E r (RecvOk p # rest) = Returned (Some (Errorf (''error from sender: '' @ Data p))) r \<and>
         error_text (Errorf (''error from sender: '' @ Data p)) = ''error from sender: '' @ Data p"
  using assms by (simp add: dispatch_def)

theorem C7_witness:
  "Type (errPacket ''boom'') = PACKET_ERR \<and>
   run (slash_env None path_codec) (Receive_init None {})
       [RecvOk (errPacket ''boom''), RecvOk finPacket] =
     Returned (Some (Errorf ''error from sender: boom'')) (Receive_init None {})"
  using C7_error_packet_aborts_with_prefixed_message
    [where p = "errPacket ''boom''" and E = "slash_env None path_codec" and r = "Receive_init None {}"
       and rest = "[RecvOk finPacket]"]
  by (simp add: errPacket_def)

text \<open>The text of the error returned for an Error packet carrying \<open>boom\<close> is not
  \<open>boom\<close>.\<close>

theorem C7_counterexample:
  "run (slash_env None path_codec) (Receive_init None {}) [RecvOk (errPacket ''boom'')] =
     Returned (Some (Errorf ''error from sender: boom'')) (Receive_init None {}) \<and>
   error_text (Errorf ''error from sender: boom'') \<noteq> ''boom''"
  by (simp add: dispatch_def errPacket_def)

subsection \<open>After the Finish packet\<close>

lemma drain_packets: "drain (map RecvOk ps @ rest) = drain rest"
  by (induction ps) simp_all

text \<open>
  C8. Once a Finish packet is received, whatever packets \<open>ps\<close> follow (Stat, Data, Request
  or Error) are received and dropped: the state stays the one at the Finish packet. While
  the stream delivers only packets the loop keeps waiting; at the end of the stream it
  returns \<^verbatim>\<open>nil\<close>; any other receive failure \<open>e\<close> is returned.
\<close>

theorem C8_finish_drains_until_EOF:
  assumes "Type p = PACKET_FIN"
  shows "run E r (RecvOk p # map RecvOk ps) = Waiting r \<and>
         run E r (RecvOk p # map RecvOk ps @ RecvErr EOF # later) = Returned None r \<and>
         (e \<noteq> EOF \<longrightarrow> run E r (RecvOk p # map RecvOk ps @ RecvErr e # later) = Returned (Some e) r)"
  using assms drain_packets [of ps "[]"] drain_packets [of ps "RecvErr EOF # later"]
    drain_packets [of ps "RecvErr e # later"]
  by simp

theorem C8_witness:
  "Type finPacket = PACKET_FIN \<and> External ''connection reset'' \<noteq> EOF \<and>
   run (slash_env None path_codec) (Receive_init None {})
       [RecvOk finPacket, RecvOk (errPacket ''late''), RecvOk (statPacket (mkStat ''a'' 0x1A4))] =
     Waiting (Receive_init None {}) \<and>
   run (slash_env None path_codec) (Receive_init None {})
       [RecvOk finPacket, RecvOk (errPacket ''late''), RecvOk (statPacket (mkStat ''a'' 0x1A4)),
        RecvErr EOF] =
     Returned None (Receive_init None {}) \<and>
   run (slash_env None path_codec) (Receive_init None {})
       [RecvOk finPacket, RecvOk (errPacket ''late''), RecvOk (statPacket (mkStat ''a'' 0x1A4)),
        RecvErr (External ''connection reset'')] =
     Returned (Some (External ''connection reset'')) (Receive_init None {})"
  using C8_finish_drains_until_EOF
    [where p = finPacket and e = "External ''connection reset''" and E = "slash_env None path_codec"
       and r = "Receive_init None {}" and ps = "[errPacket ''late'', statPacket (mkStat ''a'' 0x1A4)]"
       and later = "[]"]
  by (simp add: finPacket_def)

subsection \<open>The reserved name and the persisted log\<close>

text \<open>
  C9. With a metadata-only filter configured:
  \<^item> a Stat packet whose path is the reserved name \<^verbatim>\<open>.fsutil-metadata\<close> leaves the state as
    it was, on a platform whose separator is the slash or the backslash: the record is not
    copied into the buffer, the counter does not move, no validator sees it, nothing is
    forwarded, and the loop goes on with the next packet;
  \<^item> when the goroutines have joined without error and \<^verbatim>\<open>run\<close> returns \<^verbatim>\<open>nil\<close>, the calls
    made to the operating system were, in this order: remove the reserved name under the
    destination root, open it for writing (create, truncate, mode 0644), write the whole
    buffer, close;
  \<^item> \<^verbatim>\<open>run\<close> does return \<^verbatim>\<open>nil\<close> when opening, writing and closing succeed.
\<close>

theorem C9_reserved_name_skipped_and_log_persisted:
  "(metadataOnly E \<noteq> None \<and> Path st = metadataPath \<and> separator E \<in> {CHR ''/'', CHR 0x5C} \<longrightarrow>
      handleStat E r st = Continue r \<and>
      run E r (RecvOk (statPacket st) # rest) = run E r rest) \<and>
   (metadataOnly E \<noteq> None \<and> fst (persist E join dest r None os) = None \<longrightarrow>
      snd (persist E join dest r None os) =
        [os_Remove (join dest metadataPath),
         os_OpenFile (join dest metadataPath) [O_WRONLY, O_CREATE, O_TRUNC] 420,
         WriteTo (metadataBuffer r), Close]) \<and>
   (metadataOnly E \<noteq> None \<and> openErr os = None \<and> writeErr os = None \<and> closeErr os = None \<longrightarrow>
      fst (persist E join dest r None os) = None)"
proof -
  have rt: "ToSlash sep (FromSlash sep metadataPath) = metadataPath \<and>
            FromSlash sep metadataPath = metadataPath"
    if "sep \<in> {CHR ''/'', CHR 0x5C}" for sep
    using that by (auto simp: ToSlash_def FromSlash_def metadataPath_def)
  show ?thesis
    using rt [of "separator E"]
    by (auto simp: handleStat_def dispatch_def statPacket_def persist_def Let_def
        split: option.splits)
qed

theorem C9_witness:
  "run (slash_env (Some accept_all) path_codec) ex_meta
       [RecvOk (statPacket (mkStat metadataPath 0x1A4))] = Waiting ex_meta \<and>
   persist (slash_env (Some accept_all) path_codec) Join_slash ''/dest'' ex_meta None
       \<lparr>openErr = None, writeErr = None, closeErr = None\<rparr> =
     (None,
      [os_Remove ''/dest/.fsutil-metadata'',
       os_OpenFile ''/dest/.fsutil-metadata'' [O_WRONLY, O_CREATE, O_TRUNC] 420,
       WriteTo (putUint32 1 @ ''f''), Close])"
proof -
  let ?E = "slash_env (Some accept_all) path_codec"
  let ?os = "\<lparr>openErr = None, writeErr = None, closeErr = None\<rparr>"
  have h: "metadataOnly ?E \<noteq> None" "Path (mkStat metadataPath 0x1A4) = metadataPath"
    "separator ?E \<in> {CHR ''/'', CHR 0x5C}"
    "openErr ?os = None" "writeErr ?os = None" "closeErr ?os = None"
    by (simp_all add: slash_env_def mkStat_def)
  have j: "Join_slash ''/dest'' metadataPath = ''/dest/.fsutil-metadata''"
    by (simp add: Join_slash_def Clean_slash_def metadataPath_def)
  have b: "metadataBuffer ex_meta = putUint32 1 @ ''f''"
    by (simp add: ex_meta_state)
  note T = C9_reserved_name_skipped_and_log_persisted
             [where E = ?E and st = "mkStat metadataPath 0x1A4" and r = ex_meta and rest = "[]"
                and join = Join_slash and dest = "''/dest''" and os = ?os]
  have "run ?E ex_meta [RecvOk (statPacket (mkStat metadataPath 0x1A4))] = run ?E ex_meta []"
    using T [THEN conjunct1] h(1-3) by blast
  then have 1: "run ?E ex_meta [RecvOk (statPacket (mkStat metadataPath 0x1A4))] = Waiting ex_meta"
    by (simp only: run.simps(1))
  have 2: "fst (persist ?E Join_slash ''/dest'' ex_meta None ?os) = None"
    using T [THEN conjunct2, THEN conjunct2] h(1,4-6) by blast
  have 3: "snd (persist ?E Join_slash ''/dest'' ex_meta None ?os) =
             [os_Remove (Join_slash ''/dest'' metadataPath),
              os_OpenFile (Join_slash ''/dest'' metadataPath) [O_WRONLY, O_CREATE, O_TRUNC] 420,
              WriteTo (metadataBuffer ex_meta), Close]"
    using T [THEN conjunct2, THEN conjunct1] h(1) 2 by blast
  show ?thesis
    unfolding 1 using 2 3 by (simp add: prod_eq_iff j b)
qed

subsection \<open>The filter and the bookkeeping\<close>

lemma consumed_with_filter:
  "consumed (with_filter E f) st \<longleftrightarrow>
     ToSlash (separator E) (FromSlash (separator E) (Path st)) = Path st \<and>
     FromSlash (separator E) (Path st) \<noteq> metadataPath \<and> fst (MarshalToSizedBufferVT E st) = None"
  by (simp add: consumed_def)

lemma native_with_filter [simp]: "native (with_filter E f) st = native E st"
  by (simp add: native_def)

lemma handleStat_marshal_error:
  assumes "ToSlash (separator E) (FromSlash (separator E) (Path st)) = Path st"
    "FromSlash (separator E) (Path st) \<noteq> metadataPath" "fst (MarshalToSizedBufferVT E st) = Some e"
  shows "handleStat (with_filter E f) r st =
           Return (Some e) (r\<lparr>metadataBuffer := metadataBuffer r @ putUint32 (SizeVT E st) @
                                                 snd (MarshalToSizedBufferVT E st)\<rparr>)"
  using assms by (auto simp: handleStat_def Let_def split: prod.splits)

text \<open>
  C10, as the code has it. Let a metadata-only filter be configured and let \<open>st\<close> be a Stat
  record that is not the reserved name and whose path survives the conversion. Whatever
  the filter \<open>f\<close> answers:
  \<^item> the buffer grows by the four bytes of the little-endian length, followed by the bytes
    the codec left;
  \<^item> unless the codec fails, the counter moves by one, the ordering validator and then
    the hardlink validator are asked about the record, and a rejection \<open>e\<close> by either is
    what the loop returns.

  For two filters \<open>f\<close> and \<open>g\<close> the states after the packet agree apart from the pending
  table, the consumer's feed and the ancestor stack, and when the loop returns under both,
  it returns the same error. The ancestor stack does depend on the filter's answer: it is
  cleared on acceptance and kept (with the entry pushed, if a directory) on rejection.
\<close>

theorem C10_bookkeeping_independent_of_filter:
  assumes "ToSlash (separator E) (FromSlash (separator E) (Path st)) = Path st"
    and "FromSlash (separator E) (Path st) \<noteq> metadataPath"
  shows
  "metadataBuffer (after (handleStat (with_filter E f) r st)) =
     metadataBuffer r @ putUint32 (SizeVT E st) @ snd (MarshalToSizedBufferVT E st) \<and>
   (fst (MarshalToSizedBufferVT E st) = None \<longrightarrow>
      i_ctr (after (handleStat (with_filter E f) r st)) = i_ctr r + 1 \<and>
      orderValidator (after (handleStat (with_filter E f) r st)) =
        (case order_HandleChange E (orderValidator r) (FromSlash (separator E) (Path st)) (native E st) of
           Inl e \<Rightarrow> orderValidator r | Inr ov \<Rightarrow> ov) \<and>
      hlValidator (after (handleStat (with_filter E f) r st)) =
        (case order_HandleChange E (orderValidator r) (FromSlash (separator E) (Path st)) (native E st) of
           Inl e \<Rightarrow> hlValidator r
         | Inr ov \<Rightarrow>
             (case hl_HandleChange E (hlValidator r) (FromSlash (separator E) (Path st)) (native E st) of
                Inl e \<Rightarrow> hlValidator r | Inr hv \<Rightarrow> hv)) \<and>
      (order_HandleChange E (orderValidator r) (FromSlash (separator E) (Path st)) (native E st) = Inl e \<longrightarrow>
         is_Return (handleStat (with_filter E f) r st) \<and>
         returns (handleStat (with_filter E f) r st) = Some e) \<and>
      (order_HandleChange E (orderValidator r) (FromSlash (separator E) (Path st)) (native E st) = Inr ov \<and>
       hl_HandleChange E (hlValidator r) (FromSlash (separator E) (Path st)) (native E st) = Inl e \<longrightarrow>
         is_Return (handleStat (with_filter E f) r st) \<and>
         returns (handleStat (with_filter E f) r st) = Some e)) \<and>
   apart_from_forwarding (after (handleStat (with_filter E f) r st)) =
     apart_from_forwarding (after (handleStat (with_filter E g) r st)) \<and>
   (is_Return (handleStat (with_filter E f) r st) \<and> is_Return (handleStat (with_filter E g) r st) \<longrightarrow>
      returns (handleStat (with_filter E f) r st) = returns (handleStat (with_filter E g) r st))"
proof (cases "fst (MarshalToSizedBufferVT E st)")
  case (Some x)
  show ?thesis
    using Some by (simp add: handleStat_marshal_error [OF assms Some])
next
  case None
  let ?p = "FromSlash (separator E) (Path st)"
  let ?B = "metadataBuffer r @ putUint32 (SizeVT E st) @ snd (MarshalToSizedBufferVT E st)"
  have c: "consumed (with_filter E k) st" for k
    using assms None by (simp add: consumed_with_filter)
  have u: "handleStat (with_filter E k) r st =
      validate (with_filter E k)
        (r\<lparr>metadataBuffer := ?B,
           files := (if \<not> metaOnly_of (with_filter E k) st \<and> fileCanRequestData (Mode st)
                     then (files r)(?p \<mapsto> i_ctr r) else files r),
           i_ctr := i_ctr r + 1\<rparr>)
        \<lparr>path = ?p, stat = native E st\<rparr> (metaOnly_of (with_filter E k) st)" for k
    unfolding handleStat_consumed [OF c] register_unfold native_def by simp
  have b: "metadataBuffer (after (handleStat (with_filter E k) r st)) = ?B"
    and i: "i_ctr (after (handleStat (with_filter E k) r st)) = i_ctr r + 1"
    and ov: "orderValidator (after (handleStat (with_filter E k) r st)) =
        (case order_HandleChange E (orderValidator r) ?p (native E st) of
           Inl e \<Rightarrow> orderValidator r | Inr ov \<Rightarrow> ov)"
    and hv: "hlValidator (after (handleStat (with_filter E k) r st)) =
        (case order_HandleChange E (orderValidator r) ?p (native E st) of
           Inl e \<Rightarrow> hlValidator r
         | Inr ov \<Rightarrow>
             (case hl_HandleChange E (hlValidator r) ?p (native E st) of
                Inl e \<Rightarrow> hlValidator r | Inr hv \<Rightarrow> hv))"
    and o: "pipes (after (handleStat (with_filter E k) r st)) = pipes r"
      "sinks (after (handleStat (with_filter E k) r st)) = sinks r"
      "sent (after (handleStat (with_filter E k) r st)) = sent r"
      "walkChanClosed (after (handleStat (with_filter E k) r st)) = walkChanClosed r"
      "closeCh (after (handleStat (with_filter E k) r st)) = closeCh r" for k
    unfolding u by (simp_all add: validate_fields validate_validators split: sum.splits)
  have ap: "apart_from_forwarding (after (handleStat (with_filter E f) r st)) =
     apart_from_forwarding (after (handleStat (with_filter E g) r st))"
    by (rule receiver.equality) (simp_all add: apart_from_forwarding_def b i ov hv o)
  have rej1: "is_Return (handleStat (with_filter E k) r st) \<and>
         returns (handleStat (with_filter E k) r st) = Some e"
    if "order_HandleChange E (orderValidator r) ?p (native E st) = Inl e" for k e
    unfolding u validate_cases using that by simp
  have rej2: "is_Return (handleStat (with_filter E k) r st) \<and>
         returns (handleStat (with_filter E k) r st) = Some e"
    if "order_HandleChange E (orderValidator r) ?p (native E st) = Inr ov"
       "hl_HandleChange E (hlValidator r) ?p (native E st) = Inl e" for k e ov
    unfolding u validate_cases using that by simp
  have ret: "returns (handleStat (with_filter E k) r st) =
      (case order_HandleChange E (orderValidator r) ?p (native E st) of
         Inl e \<Rightarrow> Some e
       | Inr ov \<Rightarrow>
           (case hl_HandleChange E (hlValidator r) ?p (native E st) of
              Inl e \<Rightarrow> Some e | Inr hv \<Rightarrow> Some (walker_error r)))"
    if R: "is_Return (handleStat (with_filter E k) r st)" for k
  proof (cases "order_HandleChange E (orderValidator r) ?p (native E st)")
    case (Inl e)
    then show ?thesis unfolding u validate_cases by simp
  next
    case ord: (Inr ov)
    show ?thesis
    proof (cases "hl_HandleChange E (hlValidator r) ?p (native E st)")
      case (Inl e)
      with ord show ?thesis unfolding u validate_cases by simp
    next
      case (Inr hv)
      with ord R show ?thesis
        unfolding u validate_cases by (simp add: deliver_returns)
    qed
  qed
  show ?thesis
    using None b i ov hv ap rej1 rej2 ret by simp
qed


theorem C10_witness:
  "ToSlash CHR ''/'' (FromSlash CHR ''/'' ''dir'') = ''dir'' \<and> ''dir'' \<noteq> metadataPath \<and>
   metadataBuffer (after (handleStat (with_filter (slash_env None path_codec) accept_all)
                            (Receive_init None {}) (mkStat ''dir'' 0x800001ED))) =
     putUint32 3 @ ''dir'' \<and>
   metadataBuffer (after (handleStat (with_filter (slash_env None path_codec) accept_none)
                            (Receive_init None {}) (mkStat ''dir'' 0x800001ED))) =
     putUint32 3 @ ''dir'' \<and>
   i_ctr (after (handleStat (with_filter (slash_env None path_codec) accept_all)
                   (Receive_init None {}) (mkStat ''dir'' 0x800001ED))) = 1 \<and>
   i_ctr (after (handleStat (with_filter (slash_env None path_codec) accept_none)
                   (Receive_init None {}) (mkStat ''dir'' 0x800001ED))) = 1 \<and>
   orderValidator (after (handleStat (with_filter (slash_env None path_codec) accept_all)
                   (Receive_init None {}) (mkStat ''dir'' 0x800001ED))) = Some ''dir'' \<and>
   orderValidator (after (handleStat (with_filter (slash_env None path_codec) accept_none)
                   (Receive_init None {}) (mkStat ''dir'' 0x800001ED))) = Some ''dir'' \<and>
   apart_from_forwarding (after (handleStat (with_filter (slash_env None path_codec) accept_all)
                   (Receive_init None {}) (mkStat ''dir'' 0x800001ED))) =
   apart_from_forwarding (after (handleStat (with_filter (slash_env None path_codec) accept_none)
                   (Receive_init None {}) (mkStat ''dir'' 0x800001ED)))"
proof -
  let ?E = "slash_env None path_codec"
  let ?st = "mkStat ''dir'' 0x800001ED"
  let ?r = "Receive_init None {} :: (string option, string set) receiver"
  have h: "ToSlash (separator ?E) (FromSlash (separator ?E) (Path ?st)) = Path ?st"
    "FromSlash (separator ?E) (Path ?st) \<noteq> metadataPath"
    by (simp_all add: slash_env_def mkStat_def FromSlash_def ToSlash_def metadataPath_def)
  have e: "fst (MarshalToSizedBufferVT ?E ?st) = None" "snd (MarshalToSizedBufferVT ?E ?st) = ''dir''"
    "SizeVT ?E ?st = 3" "metadataBuffer ?r = []" "i_ctr ?r = 0"
    "order_HandleChange ?E (orderValidator ?r) (FromSlash (separator ?E) (Path ?st)) (native ?E ?st) =
       Inr (Some ''dir'')"
    "ToSlash CHR ''/'' (FromSlash CHR ''/'' ''dir'') = ''dir''" "''dir'' \<noteq> metadataPath"
    by (simp_all add: slash_env_def mkStat_def path_codec_def Receive_init_def
        Validator_HandleChange_def FromSlash_def ToSlash_def metadataPath_def)
  note A = C10_bookkeeping_independent_of_filter [OF h, where r = ?r and f = accept_all and g = accept_none]
  note B = C10_bookkeeping_independent_of_filter [OF h, where r = ?r and f = accept_none and g = accept_all]
  show ?thesis
    using A B e by simp
qed

text \<open>The Stat packet of the directory \<open>dir\<close>, under the filter that accepts everything and
  under the one that accepts nothing: the ancestor stack is empty after the first and holds
  \<open>dir\<close> after the second.\<close>

theorem C10_counterexample:
  "metadataParents (final (run (slash_env (Some accept_all) path_codec) (Receive_init None {})
       [RecvOk (statPacket (mkStat ''dir'' 0x800001ED))])) = [] \<and>
   map path (metadataParents (final (run (slash_env (Some accept_none) path_codec) (Receive_init None {})
       [RecvOk (statPacket (mkStat ''dir'' 0x800001ED))]))) = [''dir'']"
  by (simp add: run_defs accept_all_def accept_none_def trimParents_eq Dir_slash_def Clean_slash_def
      replay_open push_def clear_def)



end
